theory Spec2Isabelle
  imports Main
begin

section \<open>Strings and paths\<close>

text \<open>
  JavaScript strings are modelled as HOL strings over 8-bit characters. The helpers below
  are the string methods and the regular-expression replacements the sources call:
  \<^verbatim>\<open>startsWith\<close>, \<^verbatim>\<open>endsWith\<close>, \<^verbatim>\<open>replace(/\.md$/, '')\<close>,
  \<^verbatim>\<open>replace(/\//g, '_')\<close>, \<^verbatim>\<open>replace(/\n/g, ' ')\<close>, \<^verbatim>\<open>substring(0, 100)\<close>,
  \<^verbatim>\<open>trim()\<close> and \<^verbatim>\<open>toLowerCase()\<close>.
\<close>

definition startsWith :: "string \<Rightarrow> string \<Rightarrow> bool" where
  "startsWith s p = (take (length p) s = p)"

definition endsWith :: "string \<Rightarrow> string \<Rightarrow> bool" where
  "endsWith s p = (length p \<le> length s \<and> drop (length s - length p) s = p)"

text \<open>\<^verbatim>\<open>s.replace(/\.md$/, '')\<close>: the pattern is anchored at the end of the string, so the
  only possible match is a trailing \<^verbatim>\<open>.md\<close>.\<close>

definition strip_md :: "string \<Rightarrow> string" where
  "strip_md s = (if endsWith s ''.md'' then take (length s - 3) s else s)"

text \<open>\<^verbatim>\<open>s.replace(/\//g, '_')\<close>\<close>

definition flatten_slashes :: "string \<Rightarrow> string" where
  "flatten_slashes s = map (\<lambda>c. if c = CHR ''/'' then CHR ''_'' else c) s"

text \<open>\<^verbatim>\<open>s.replace(/\n/g, ' ')\<close>\<close>

definition newlines_to_spaces :: "string \<Rightarrow> string" where
  "newlines_to_spaces s = map (\<lambda>c. if c = CHR 0x0A then CHR '' '' else c) s"

text \<open>\<^verbatim>\<open>trim()\<close> removes white space and line terminators at both ends; among 8-bit
  characters these are tab, line feed, vertical tab, form feed, carriage return, space and
  the no-break space.\<close>

definition isWhiteSpace :: "char \<Rightarrow> bool" where
  "isWhiteSpace c = (c \<in> set [CHR 0x09, CHR 0x0A, CHR 0x0B, CHR 0x0C, CHR 0x0D, CHR 0x20, CHR 0xA0])"

definition trim :: "string \<Rightarrow> string" where
  "trim s = rev (dropWhile isWhiteSpace (rev (dropWhile isWhiteSpace s)))"

text \<open>The character class \<^verbatim>\<open>[a-z0-9-_]\<close> under the flag \<^verbatim>\<open>i\<close>: letters of either case,
  digits, hyphen and underscore.\<close>

definition isSafeChar :: "char \<Rightarrow> bool" where
  "isSafeChar c = (c \<in> set ''abcdefghijklmnopqrstuvwxyzABCDEFGHIJKLMNOPQRSTUVWXYZ0123456789-_'')"

definition toLowerChar :: "char \<Rightarrow> char" where
  "toLowerChar c =
     (case map_of (zip ''ABCDEFGHIJKLMNOPQRSTUVWXYZ'' ''abcdefghijklmnopqrstuvwxyz'') c of
        Some l \<Rightarrow> l
      | None \<Rightarrow> c)"

text \<open>\<^verbatim>\<open>sanitizeFileName\<close> (src/unnamed/part_000):
  \<^verbatim>\<open>name.replace(/[^a-z0-9-_]/gi, '_').toLowerCase()\<close>. After the replacement only ASCII
  letters, digits, hyphen and underscore are left, so lowering the case touches
  \<^verbatim>\<open>A\<close>..\<^verbatim>\<open>Z\<close> only.\<close>

definition sanitizeFileName :: "string \<Rightarrow> string" where
  "sanitizeFileName name =
     map toLowerChar (map (\<lambda>c. if isSafeChar c then c else CHR ''_'') name)"

text \<open>
  Paths are normalised POSIX paths. \<^verbatim>\<open>path.join(dir, name)\<close> of a directory and a path
  below it puts a separator between them; \<^verbatim>\<open>path.isAbsolute\<close> looks at the first
  character.
\<close>

definition path_join :: "string \<Rightarrow> string \<Rightarrow> string" where
  "path_join dir f = dir @ ''/'' @ f"

definition path_isAbsolute :: "string \<Rightarrow> bool" where
  "path_isAbsolute p = startsWith p ''/''"

text \<open>Splitting at a separator (every segment is kept, empty ones too) and joining again.\<close>

fun split_on :: "char \<Rightarrow> string \<Rightarrow> string list" where
  "split_on c [] = [] # []"
| "split_on c (x # xs) =
     (if x = c then [] # split_on c xs
      else (case split_on c xs of
              [] \<Rightarrow> [x] # []
            | w # ws \<Rightarrow> (x # w) # ws))"

fun join_with :: "char \<Rightarrow> string list \<Rightarrow> string" where
  "join_with c [] = []"
| "join_with c [w] = w"
| "join_with c (w # v # ws) = w @ c # join_with c (v # ws)"

definition path_segments :: "string \<Rightarrow> string list" where
  "path_segments p = filter (\<lambda>w. w \<noteq> []) (split_on CHR ''/'' p)"

fun drop_common :: "string list \<Rightarrow> string list \<Rightarrow> string list \<times> string list" where
  "drop_common (x # xs) (y # ys) = (if x = y then drop_common xs ys else (x # xs, y # ys))"
| "drop_common xs ys = (xs, ys)"

text \<open>\<^verbatim>\<open>path.relative(from, to)\<close> on normalised absolute paths: the common leading segments
  are dropped, each remaining segment of \<^verbatim>\<open>from\<close> becomes \<^verbatim>\<open>..\<close>, and the remaining
  segments of \<^verbatim>\<open>to\<close> follow.\<close>

definition path_relative :: "string \<Rightarrow> string \<Rightarrow> string" where
  "path_relative from to =
     (case drop_common (path_segments from) (path_segments to) of
        (up, down) \<Rightarrow> join_with CHR ''/'' (replicate (length up) ''..'' @ down))"

text \<open>The root-relative path of an entry \<^verbatim>\<open>name\<close> of the directory whose root-relative
  path is \<^verbatim>\<open>rel\<close> (empty for the root itself): this is what
  \<^verbatim>\<open>path.relative(baseDir, path.join(dir, entry.name))\<close> yields during a walk that starts
  at \<^verbatim>\<open>baseDir\<close>.\<close>

definition rel_join :: "string \<Rightarrow> string \<Rightarrow> string" where
  "rel_join rel name = (if rel = [] then name else rel @ ''/'' @ name)"

section \<open>The file system below the prompts directory\<close>

text \<open>
  What the \<^verbatim>\<open>fs\<close> module shows of the tree below \<^verbatim>\<open>promptsDir\<close>. A file carries its
  content, or \<open>None\<close> when \<^verbatim>\<open>readFile\<close> on it is rejected. A directory carries whether
  \<^verbatim>\<open>readdir\<close> succeeds on it and its entries in the order \<^verbatim>\<open>readdir\<close> lists them.
  \<open>Other\<close> is an entry for which both \<^verbatim>\<open>isDirectory()\<close> and \<^verbatim>\<open>isFile()\<close> are false
  (a symbolic link, a socket, a pipe).
\<close>

datatype fs_node =
    File "string option"
  | Dir bool "(string \<times> fs_node) list"
  | Other

fun node_lookup :: "fs_node \<Rightarrow> string list \<Rightarrow> fs_node option"
  and entries_lookup :: "(string \<times> fs_node) list \<Rightarrow> string \<Rightarrow> string list \<Rightarrow> fs_node option"
where
  "node_lookup t [] = Some t"
| "node_lookup (Dir r es) (c # cs) = entries_lookup es c cs"
| "node_lookup (File d) (c # cs) = None"
| "node_lookup Other (c # cs) = None"
| "entries_lookup [] c cs = None"
| "entries_lookup ((n, x) # es) c cs =
     (if n = c then node_lookup x cs else entries_lookup es c cs)"

text \<open>The node a full path names: the root for \<^verbatim>\<open>promptsDir\<close> itself, a node of the tree
  for a path below it, nothing elsewhere.\<close>

definition resolve_path :: "string \<Rightarrow> fs_node \<Rightarrow> string \<Rightarrow> fs_node option" where
  "resolve_path promptsDir root p =
     (if p = promptsDir then Some root
      else if startsWith p (promptsDir @ ''/'')
      then node_lookup root (split_on CHR ''/'' (drop (length promptsDir + 1) p))
      else None)"

text \<open>\<^verbatim>\<open>fs.access(p)\<close> resolves iff something exists at \<^verbatim>\<open>p\<close>; \<^verbatim>\<open>fs.readFile(p, 'utf-8')\<close>
  resolves with the content iff \<^verbatim>\<open>p\<close> is a readable file.\<close>

definition fs_access :: "string \<Rightarrow> fs_node \<Rightarrow> string \<Rightarrow> bool" where
  "fs_access promptsDir root p = (resolve_path promptsDir root p \<noteq> None)"

definition fs_readFile :: "string \<Rightarrow> fs_node \<Rightarrow> string \<Rightarrow> string option" where
  "fs_readFile promptsDir root p =
     (case resolve_path promptsDir root p of
        Some (File (Some content)) \<Rightarrow> Some content
      | _ \<Rightarrow> None)"

section \<open>The index cache (class PromptCache in src/src/fileOperations.ts)\<close>

text \<open>
  A \<^verbatim>\<open>PromptInfo\<close> holds the name, the front matter and the preview. The front matter is
  whatever the \<^verbatim>\<open>gray-matter\<close> package returns; its type is left open.
\<close>

record 'm PromptInfo =
  name :: string
  metadata :: 'm
  preview :: string

text \<open>
  The cache is a JavaScript \<^verbatim>\<open>Map\<close>: an association list in insertion order.
  \<^verbatim>\<open>set\<close> overwrites the value of a key in place and appends a new key, \<^verbatim>\<open>delete\<close>
  removes the key, \<^verbatim>\<open>get\<close> looks it up, \<^verbatim>\<open>clear\<close> leaves the empty list.
\<close>

type_synonym 'm cache = "(string \<times> 'm PromptInfo) list"

fun cache_set :: "string \<Rightarrow> 'm PromptInfo \<Rightarrow> 'm cache \<Rightarrow> 'm cache" where
  "cache_set k v [] = [(k, v)]"
| "cache_set k v ((k', v') # c) = (if k' = k then (k, v) # c else (k', v') # cache_set k v c)"

definition cache_delete :: "string \<Rightarrow> 'm cache \<Rightarrow> 'm cache" where
  "cache_delete k c = filter (\<lambda>e. fst e \<noteq> k) c"

definition getPrompt :: "'m cache \<Rightarrow> string \<Rightarrow> 'm PromptInfo option" where
  "getPrompt c k = map_of c k"

definition getAllPrompts :: "'m cache \<Rightarrow> 'm PromptInfo list" where
  "getAllPrompts c = map snd c"

definition isEmpty :: "'m cache \<Rightarrow> bool" where
  "isEmpty c = (length c = 0)"

text \<open>
  \<^verbatim>\<open>findMarkdownFiles(dir, baseDir)\<close>. The directory is given by the node found there and
  by its root-relative path. A rejected \<^verbatim>\<open>readdir\<close> (also on something that is no
  directory) is caught and leaves the empty result. The loop over the entries skips names
  that start with a dot, descends into directories and collects the files whose name ends
  in \<^verbatim>\<open>.md\<close>.
\<close>

fun findMarkdownFiles :: "fs_node \<Rightarrow> string \<Rightarrow> string list"
  and findMarkdownFiles_loop :: "string \<Rightarrow> (string \<times> fs_node) list \<Rightarrow> string list"
where
  "findMarkdownFiles (Dir readable es) rel = (if readable then findMarkdownFiles_loop rel es else [])"
| "findMarkdownFiles (File d) rel = []"
| "findMarkdownFiles Other rel = []"
| "findMarkdownFiles_loop rel [] = []"
| "findMarkdownFiles_loop rel ((n, x) # es) =
     (if startsWith n ''.'' then findMarkdownFiles_loop rel es
      else (case x of
              Dir r sub \<Rightarrow> findMarkdownFiles x (rel_join rel n) @ findMarkdownFiles_loop rel es
            | File d \<Rightarrow>
                if endsWith n ''.md'' then rel_join rel n # findMarkdownFiles_loop rel es
                else findMarkdownFiles_loop rel es
            | Other \<Rightarrow> findMarkdownFiles_loop rel es))"

text \<open>
  \<^verbatim>\<open>loadPromptMetadata(fileName)\<close>. The parameter \<open>matter\<close> is the \<^verbatim>\<open>gray-matter\<close>
  parser: it returns the front matter and the body, or \<open>None\<close> where it throws. Every
  exception of the read and of the parser is caught and turned into \<^verbatim>\<open>null\<close>.
\<close>

definition loadPromptMetadata ::
  "(string \<Rightarrow> ('m \<times> string) option) \<Rightarrow> string \<Rightarrow> fs_node \<Rightarrow> string \<Rightarrow> 'm PromptInfo option" where
  "loadPromptMetadata matter promptsDir root fileName =
     (case fs_readFile promptsDir root (path_join promptsDir fileName) of
        None \<Rightarrow> None
      | Some content \<Rightarrow>
          (case matter content of
             None \<Rightarrow> None
           | Some (data, body) \<Rightarrow>
               Some \<lparr> name = flatten_slashes (strip_md fileName),
                      metadata = data,
                      preview = trim (newlines_to_spaces (take 100 body)) @ ''...'' \<rparr>))"

text \<open>
  \<^verbatim>\<open>updateCacheForFile(filePath)\<close> and \<^verbatim>\<open>removeFromCache(filePath)\<close>. Neither throws.
  Both begin with the same lines, which return at once for a path without the extension
  and then set the local variable \<^verbatim>\<open>relativePath\<close>.
\<close>

definition relativePath :: "string \<Rightarrow> string \<Rightarrow> string" where
  "relativePath promptsDir filePath =
     (if path_isAbsolute filePath then path_relative promptsDir filePath else filePath)"

definition updateCacheForFile ::
  "(string \<Rightarrow> ('m \<times> string) option) \<Rightarrow> string \<Rightarrow> fs_node \<Rightarrow> string \<Rightarrow> 'm cache \<Rightarrow> 'm cache" where
  "updateCacheForFile matter promptsDir root filePath c =
     (if \<not> endsWith filePath ''.md'' then c
      else (case loadPromptMetadata matter promptsDir root (relativePath promptsDir filePath) of
              Some info \<Rightarrow> cache_set (name info) info c
            | None \<Rightarrow> c))"

definition removeFromCache :: "string \<Rightarrow> string \<Rightarrow> 'm cache \<Rightarrow> 'm cache" where
  "removeFromCache promptsDir filePath c =
     (if \<not> endsWith filePath ''.md'' then c
      else cache_delete (flatten_slashes (strip_md (relativePath promptsDir filePath))) c)"

text \<open>
  Exceptions are values: \<open>Error msg\<close> is \<^verbatim>\<open>new Error(msg)\<close>, \<open>SystemError\<close> an
  exception of the \<^verbatim>\<open>fs\<close> module that nothing catches.
\<close>

datatype error = Error string | SystemError

text \<open>
  \<^verbatim>\<open>ensurePromptsDir()\<close>: nothing to do when the directory is there; otherwise
  \<^verbatim>\<open>mkdir\<close> creates it empty, or throws (\<open>mkdir_ok\<close> tells which). The file system of
  \<^verbatim>\<open>initializeCache\<close> is \<open>None\<close> when \<^verbatim>\<open>promptsDir\<close> does not exist.
\<close>

definition ensurePromptsDir :: "bool \<Rightarrow> fs_node option \<Rightarrow> error + fs_node" where
  "ensurePromptsDir mkdir_ok fs =
     (case fs of
        Some root \<Rightarrow> Inr root
      | None \<Rightarrow> if mkdir_ok then Inr (Dir True []) else Inl SystemError)"

text \<open>
  \<^verbatim>\<open>initializeCache()\<close>. The call of \<^verbatim>\<open>ensurePromptsDir\<close> stands before the \<^verbatim>\<open>try\<close>,
  so its exception leaves the function and the cache is not touched. Otherwise the scan
  runs, the cache is cleared, and \<^verbatim>\<open>Promise.all\<close> starts one \<^verbatim>\<open>updateCacheForFile\<close> per
  scanned file; each of them writes to the cache when its own read has completed.
  \<open>done_at\<close> gives the moment at which the read of a file completes, so the writes happen
  in the order \<open>sort_key done_at mdFiles\<close> (reads that complete together keep the order
  in which they were started). The result is the file system and the cache afterwards.
\<close>

definition initializeCache ::
  "bool \<Rightarrow> (string \<Rightarrow> nat) \<Rightarrow> (string \<Rightarrow> ('m \<times> string) option) \<Rightarrow> string \<Rightarrow>
   fs_node option \<Rightarrow> 'm cache \<Rightarrow> error + (fs_node \<times> 'm cache)" where
  "initializeCache mkdir_ok done_at matter promptsDir fs c =
     (case ensurePromptsDir mkdir_ok fs of
        Inl e \<Rightarrow> Inl e
      | Inr root \<Rightarrow>
          Inr (root,
               foldl (\<lambda>c' file. updateCacheForFile matter promptsDir root file c') []
                 (sort_key done_at (findMarkdownFiles root ''''))))"

section \<open>Reading one prompt (class PromptFileOperations, in both source files)\<close>

text \<open>
  \<^verbatim>\<open>findPromptFile(name)\<close> of src/unnamed/part_000. First the direct path
  \<^verbatim>\<open>promptsDir/<sanitized name>.md\<close> is tried with \<^verbatim>\<open>fs.access\<close>. Then \<^verbatim>\<open>searchDir\<close> walks
  the tree and returns the full path of the first file whose root-relative path without
  the extension is the name, or has the sanitized name as its sanitized form.
\<close>

fun searchDir :: "string \<Rightarrow> string \<Rightarrow> string \<Rightarrow> fs_node \<Rightarrow> string \<Rightarrow> string option"
  and searchDir_loop ::
    "string \<Rightarrow> string \<Rightarrow> string \<Rightarrow> string \<Rightarrow> (string \<times> fs_node) list \<Rightarrow> string option"
where
  "searchDir promptsDir nm sanitizedName (Dir readable es) rel =
     (if readable then searchDir_loop promptsDir nm sanitizedName rel es else None)"
| "searchDir promptsDir nm sanitizedName (File d) rel = None"
| "searchDir promptsDir nm sanitizedName Other rel = None"
| "searchDir_loop promptsDir nm sanitizedName rel [] = None"
| "searchDir_loop promptsDir nm sanitizedName rel ((n, x) # es) =
     (if startsWith n ''.'' then searchDir_loop promptsDir nm sanitizedName rel es
      else (case x of
              Dir r sub \<Rightarrow>
                (case searchDir promptsDir nm sanitizedName x (rel_join rel n) of
                   Some found \<Rightarrow> Some found
                 | None \<Rightarrow> searchDir_loop promptsDir nm sanitizedName rel es)
            | File d \<Rightarrow>
                if endsWith n ''.md'' then
                  (if strip_md (rel_join rel n) = nm
                   then Some (path_join promptsDir (rel_join rel n))
                   else if sanitizeFileName (strip_md (rel_join rel n)) = sanitizedName
                   then Some (path_join promptsDir (rel_join rel n))
                   else searchDir_loop promptsDir nm sanitizedName rel es)
                else searchDir_loop promptsDir nm sanitizedName rel es
            | Other \<Rightarrow> searchDir_loop promptsDir nm sanitizedName rel es))"

definition findPromptFile :: "string \<Rightarrow> fs_node \<Rightarrow> string \<Rightarrow> string option" where
  "findPromptFile promptsDir root nm =
     (if fs_access promptsDir root (path_join promptsDir (sanitizeFileName nm @ ''.md''))
      then Some (path_join promptsDir (sanitizeFileName nm @ ''.md''))
      else searchDir promptsDir nm (sanitizeFileName nm) root '''')"

text \<open>
  \<^verbatim>\<open>findPromptFile(name)\<close> of src/src/fileOperations.ts: the walk alone, with the
  exact comparison alone.
\<close>

fun searchDir_exact :: "string \<Rightarrow> string \<Rightarrow> fs_node \<Rightarrow> string \<Rightarrow> string option"
  and searchDir_exact_loop ::
    "string \<Rightarrow> string \<Rightarrow> string \<Rightarrow> (string \<times> fs_node) list \<Rightarrow> string option"
where
  "searchDir_exact promptsDir nm (Dir readable es) rel =
     (if readable then searchDir_exact_loop promptsDir nm rel es else None)"
| "searchDir_exact promptsDir nm (File d) rel = None"
| "searchDir_exact promptsDir nm Other rel = None"
| "searchDir_exact_loop promptsDir nm rel [] = None"
| "searchDir_exact_loop promptsDir nm rel ((n, x) # es) =
     (if startsWith n ''.'' then searchDir_exact_loop promptsDir nm rel es
      else (case x of
              Dir r sub \<Rightarrow>
                (case searchDir_exact promptsDir nm x (rel_join rel n) of
                   Some found \<Rightarrow> Some found
                 | None \<Rightarrow> searchDir_exact_loop promptsDir nm rel es)
            | File d \<Rightarrow>
                if endsWith n ''.md'' then
                  (if strip_md (rel_join rel n) = nm
                   then Some (path_join promptsDir (rel_join rel n))
                   else searchDir_exact_loop promptsDir nm rel es)
                else searchDir_exact_loop promptsDir nm rel es
            | Other \<Rightarrow> searchDir_exact_loop promptsDir nm rel es))"

definition findPromptFile_exact :: "string \<Rightarrow> fs_node \<Rightarrow> string \<Rightarrow> string option" where
  "findPromptFile_exact promptsDir root nm = searchDir_exact promptsDir nm root ''''"

text \<open>
  \<^verbatim>\<open>readPrompt(name)\<close>, the same text in both files: one message for a name that is
  not resolved and for a resolved file whose read is rejected.
\<close>

definition not_found :: "string \<Rightarrow> error" where
  "not_found nm = Error (''Prompt '' @ [CHR 0x22] @ nm @ [CHR 0x22] @ '' not found'')"

definition readPrompt :: "string \<Rightarrow> fs_node \<Rightarrow> string \<Rightarrow> error + string" where
  "readPrompt promptsDir root nm =
     (case findPromptFile promptsDir root nm of
        None \<Rightarrow> Inl (not_found nm)
      | Some filePath \<Rightarrow>
          (case fs_readFile promptsDir root filePath of
             Some content \<Rightarrow> Inr content
           | None \<Rightarrow> Inl (not_found nm)))"

definition readPrompt_exact :: "string \<Rightarrow> fs_node \<Rightarrow> string \<Rightarrow> error + string" where
  "readPrompt_exact promptsDir root nm =
     (case findPromptFile_exact promptsDir root nm of
        None \<Rightarrow> Inl (not_found nm)
      | Some filePath \<Rightarrow>
          (case fs_readFile promptsDir root filePath of
             Some content \<Rightarrow> Inr content
           | None \<Rightarrow> Inl (not_found nm)))"

section \<open>Well-formed names and visible files\<close>

text \<open>
  The names a directory listing can hold: not empty and without a separator. The
  statements about whole paths of scanned files assume this of every name of the tree.
\<close>

fun names_ok :: "fs_node \<Rightarrow> bool"
  and entries_names_ok :: "(string \<times> fs_node) list \<Rightarrow> bool"
where
  "names_ok (Dir r es) = entries_names_ok es"
| "names_ok (File d) = True"
| "names_ok Other = True"
| "entries_names_ok [] = True"
| "entries_names_ok ((n, x) # es) =
     (n \<noteq> [] \<and> CHR ''/'' \<notin> set n \<and> names_ok x \<and> entries_names_ok es)"

text \<open>A path none of whose segments starts with a dot.\<close>

definition visible_path :: "string \<Rightarrow> bool" where
  "visible_path p = (\<forall>s \<in> set (split_on CHR ''/'' p). \<not> startsWith s ''.'')"

text \<open>
  The files the scan is meant to find, told from the tree alone: \<open>visible_file t cs\<close>
  holds when the chain of names \<open>cs\<close> leads from the directory \<open>t\<close> to a file whose name
  ends in \<^verbatim>\<open>.md\<close>, no name of the chain starts with a dot, and every directory on the
  way can be listed.
\<close>

fun visible_file :: "fs_node \<Rightarrow> string list \<Rightarrow> bool"
  and visible_entry :: "(string \<times> fs_node) list \<Rightarrow> string \<Rightarrow> string list \<Rightarrow> bool"
where
  "visible_file (Dir r es) (c # cs) = (r \<and> \<not> startsWith c ''.'' \<and> visible_entry es c cs)"
| "visible_file (Dir r es) [] = False"
| "visible_file (File d) cs = False"
| "visible_file Other cs = False"
| "visible_entry [] c cs = False"
| "visible_entry ((n, x) # es) c cs =
     ((n = c \<and>
       (case x of
          File d \<Rightarrow> cs = [] \<and> endsWith c ''.md''
        | Dir r sub \<Rightarrow> visible_file x cs
        | Other \<Rightarrow> False)) \<or>
      visible_entry es c cs)"

section \<open>Sample trees\<close>

text \<open>
  A parser and a tree on which the statements below are evaluated. The parser throws on
  the content \<^verbatim>\<open>---\<close> and returns every other content as the body. The tree has a
  hidden directory, a nested file, a flat file whose name collides with the nested one, a
  file the parser rejects, a file that cannot be read, a file without the extension, a
  directory that cannot be listed and an entry that is neither file nor directory.
\<close>

definition example_matter :: "string \<Rightarrow> (unit \<times> string) option" where
  "example_matter content = (if content = ''---'' then None else Some ((), content))"

definition example_tree :: fs_node where
  "example_tree =
     Dir True
       [(''.hidden'', Dir True [(''x.md'', File (Some ''secret''))]),
        (''a'', Dir True [(''b.md'', File (Some [CHR '' '', CHR ''H'', CHR ''i'', CHR 0x0A, CHR ''y'', CHR ''o'', CHR ''u'', CHR 0x0A]))]),
        (''a_b.md'', File (Some ''flat'')),
        (''broken.md'', File (Some ''---'')),
        (''locked.md'', File None),
        (''notes.txt'', File (Some ''text'')),
        (''team'', Dir True [(''review.md'', File (Some ''Review the code''))]),
        (''private'', Dir False [(''p.md'', File (Some ''unseen''))]),
        (''link.md'', Other)]"

text \<open>A second tree, in which no two files flatten to the same name.\<close>

definition plain_tree :: fs_node where
  "plain_tree =
     Dir True
       [(''code-review.md'', File (Some ''You are an experienced engineer'')),
        (''locked.md'', File None),
        (''team'', Dir True [(''review.md'', File (Some ''Review the code''))])]"

text \<open>A third tree: two files with one sanitized form, neither at the direct path of that
  form.\<close>

definition shadow_tree :: fs_node where
  "shadow_tree =
     Dir True
       [(''X_Y.md'', File (Some ''upper'')),
        (''x y.md'', File (Some ''spaced''))]"

section \<open>Auxiliary facts\<close>


lemma startsWith_dot: "startsWith n ''.'' \<longleftrightarrow> (\<exists>t. n = CHR ''.'' # t)"
  by (cases n) (auto simp: startsWith_def)

lemma endsWith_append: "endsWith (a @ p) p"
  by (simp add: endsWith_def)

lemma endsWith_iff: "endsWith s p \<longleftrightarrow> (\<exists>a. s = a @ p)"
proof
  assume "endsWith s p"
  then have "s = take (length s - length p) s @ p"
    by (metis append_take_drop_id endsWith_def)
  then show "\<exists>a. s = a @ p" ..
next
  assume "\<exists>a. s = a @ p"
  then show "endsWith s p" by (auto simp: endsWith_def)
qed

lemma strip_md_append [simp]: "strip_md (a @ ''.md'') = a"
  by (simp add: strip_md_def endsWith_def)

lemma strip_md_restore: "endsWith s ''.md'' \<Longrightarrow> strip_md s @ ''.md'' = s"
  by (auto simp: endsWith_iff)

lemma split_on_not_Nil [simp]: "split_on c s \<noteq> []"
  by (induction s) (auto split: list.splits)

lemma split_on_append: "split_on c (a @ c # b) = split_on c a @ split_on c b"
  by (induction a) (auto split: list.splits)

lemma split_on_no_sep: "c \<notin> set s \<Longrightarrow> split_on c s = [s]"
  by (induction s) auto

lemma join_with_Cons: "join_with c ((x # w) # ws) = x # join_with c (w # ws)"
  by (cases ws) auto

lemma join_split: "join_with c (split_on c s) = s"
  by (induction s) (auto split: list.splits simp: join_with_Cons)

lemma join_underscore_split: "join_with CHR ''_'' (split_on CHR ''/'' s) = flatten_slashes s"
  by (induction s) (auto split: list.splits simp: join_with_Cons flatten_slashes_def)

lemma flatten_no_slash: "CHR ''/'' \<notin> set (flatten_slashes s)"
  by (auto simp: flatten_slashes_def)

lemma drop_common_append: "drop_common xs (xs @ ys) = ([], ys)"
  by (induction xs) auto

lemma path_segments_join: "path_segments (path_join d rel) = path_segments d @ path_segments rel"
  by (simp add: path_segments_def path_join_def split_on_append)

lemma filter_nonempty: "[] \<notin> set ws \<Longrightarrow> filter (\<lambda>w. w \<noteq> []) ws = ws"
  by (induction ws) auto

lemma path_relative_join:
  "[] \<notin> set (split_on CHR ''/'' rel) \<Longrightarrow> path_relative d (path_join d rel) = rel"
  by (simp add: path_relative_def path_segments_join drop_common_append)
     (simp add: path_segments_def join_split filter_nonempty)

lemma map_of_cache_set: "map_of (cache_set k v c) = (map_of c)(k \<mapsto> v)"
  by (induction c) (auto simp: fun_eq_iff)

lemma keys_cache_set: "fst ` set (cache_set k v c) = insert k (fst ` set c)"
  by (simp add: dom_map_of_conv_image_fst [symmetric] map_of_cache_set)

lemma distinct_cache_set: "distinct (map fst c) \<Longrightarrow> distinct (map fst (cache_set k v c))"
  by (induction c) (auto simp: keys_cache_set)

lemma filter_cache_set:
  "distinct (map fst c) \<Longrightarrow> filter (\<lambda>e. fst e = k) (cache_set k v c) = [(k, v)]"
  by (induction c) (auto simp: filter_empty_conv rev_image_eqI)

lemma map_of_cache_delete: "map_of (cache_delete k c) = (map_of c)(k := None)"
  by (induction c) (auto simp: cache_delete_def fun_eq_iff)

lemma distinct_cache_delete: "distinct (map fst c) \<Longrightarrow> distinct (map fst (cache_delete k c))"
  by (simp add: cache_delete_def distinct_map_filter)

lemma cache_delete_absent: "map_of c k = None \<Longrightarrow> cache_delete k c = c"
  by (induction c) (auto simp: cache_delete_def split: if_splits)


lemma length_trim: "length (trim s) \<le> length s"
  unfolding trim_def
  by (metis length_rev length_dropWhile_le le_trans)

lemma set_trim: "set (trim s) \<subseteq> set s"
  unfolding trim_def
  by (metis set_rev set_dropWhileD subsetI)

lemma last_dropWhile: "dropWhile P xs \<noteq> [] \<Longrightarrow> last (dropWhile P xs) = last xs"
  by (induction xs) (auto split: if_splits)

lemma trim_ends:
  assumes "trim s \<noteq> []"
  shows "\<not> isWhiteSpace (hd (trim s)) \<and> \<not> isWhiteSpace (last (trim s))"
proof -
  let ?u = "dropWhile isWhiteSpace s"
  let ?v = "dropWhile isWhiteSpace (rev ?u)"
  from assms have v: "?v \<noteq> []" by (simp add: trim_def)
  then have u: "?u \<noteq> []" by (metis dropWhile.simps(1) rev.simps(1))
  have "last (trim s) = hd ?v" using v by (simp add: trim_def last_rev)
  moreover have "\<not> isWhiteSpace (hd ?v)" using v by (rule hd_dropWhile)
  moreover have "hd (trim s) = last ?v" using v by (simp add: trim_def hd_rev)
  moreover have "last ?v = last (rev ?u)" using v by (rule last_dropWhile)
  moreover have "last (rev ?u) = hd ?u" using u by (simp add: last_rev)
  moreover have "\<not> isWhiteSpace (hd ?u)" using u by (rule hd_dropWhile)
  ultimately show ?thesis by simp
qed

lemma no_newline_after_replace: "CHR 0x0A \<notin> set (newlines_to_spaces s)"
  by (auto simp: newlines_to_spaces_def)

lemma loadPromptMetadata_Some:
  "loadPromptMetadata matter d root p = Some r \<longleftrightarrow>
     (\<exists>content data body.
        fs_readFile d root (path_join d p) = Some content \<and> matter content = Some (data, body) \<and>
        r = \<lparr> name = flatten_slashes (strip_md p), metadata = data,
              preview = trim (newlines_to_spaces (take 100 body)) @ ''...'' \<rparr>)"
  by (auto simp: loadPromptMetadata_def split: option.splits)

lemma updateCacheForFile_loaded:
  "endsWith p ''.md'' \<Longrightarrow> loadPromptMetadata matter d root (relativePath d p) = Some r \<Longrightarrow>
   updateCacheForFile matter d root p c = cache_set (name r) r c"
  by (simp add: updateCacheForFile_def)

lemma updateCacheForFile_failed:
  "loadPromptMetadata matter d root (relativePath d p) = None \<Longrightarrow>
   updateCacheForFile matter d root p c = c"
  by (simp add: updateCacheForFile_def)

lemma endsWith_rev: "endsWith s p \<longleftrightarrow> take (length p) (rev s) = rev p"
proof
  assume "endsWith s p"
  then obtain a where "s = a @ p" by (auto simp: endsWith_iff)
  then show "take (length p) (rev s) = rev p" by simp
next
  assume t: "take (length p) (rev s) = rev p"
  have "rev s = take (length p) (rev s) @ drop (length p) (rev s)" by simp
  with t have "rev s = rev p @ drop (length p) (rev s)" by simp
  then have "s = rev (drop (length p) (rev s)) @ p"
    by (metis rev_append rev_rev_ident)
  then show "endsWith s p" by (metis endsWith_append)
qed

lemma take3_sep:
  "take 3 (xs @ CHR ''/'' # ys) = ''dm.'' \<longleftrightarrow> take 3 xs = ''dm.''"
proof (cases xs)
  case Nil
  then show ?thesis by simp
next
  case (Cons a as)
  show ?thesis
  proof (cases as)
    case Nil
    with Cons show ?thesis by (simp add: numeral_3_eq_3)
  next
    case (Cons b bs)
    with \<open>xs = a # as\<close> show ?thesis by (cases bs) (simp_all add: numeral_3_eq_3)
  qed
qed

lemma endsWith_path_join:
  "endsWith (path_join d rel) ''.md'' \<longleftrightarrow> endsWith rel ''.md''"
proof -
  have "rev (path_join d rel) = rev rel @ CHR ''/'' # rev d"
    by (simp add: path_join_def)
  moreover have "length ''.md'' = 3" and "rev ''.md'' = ''dm.''" by simp_all
  ultimately show ?thesis
    unfolding endsWith_rev using take3_sep [of "rev rel" "rev d"] by metis
qed

lemma relativePath_join:
  "path_isAbsolute d \<Longrightarrow> [] \<notin> set (split_on CHR ''/'' rel) \<Longrightarrow>
   relativePath d (path_join d rel) = rel"
proof -
  assume a: "path_isAbsolute d" and s: "[] \<notin> set (split_on CHR ''/'' rel)"
  from a have "path_isAbsolute (path_join d rel)"
    by (cases d) (auto simp: path_isAbsolute_def startsWith_def path_join_def)
  then show ?thesis
    by (simp add: relativePath_def path_relative_join [OF s])
qed

lemma relativePath_relative:
  "[] \<notin> set (split_on CHR ''/'' rel) \<Longrightarrow> relativePath d rel = rel"
  by (cases rel) (auto simp: relativePath_def path_isAbsolute_def startsWith_def)

lemma length_cache_set_present:
  "k \<in> set (map fst c) \<Longrightarrow> length (cache_set k v c) = length c"
  by (induction c) fastforce+

lemma updateCacheForFile_distinct:
  "distinct (map fst c) \<Longrightarrow> distinct (map fst (updateCacheForFile matter d root p c))"
  by (auto simp: updateCacheForFile_def distinct_cache_set split: option.splits)

lemma removeFromCache_distinct:
  "distinct (map fst c) \<Longrightarrow> distinct (map fst (removeFromCache d p c))"
  by (auto simp: removeFromCache_def distinct_cache_delete)

lemmas eval_simps =
  loadPromptMetadata_def fs_readFile_def fs_access_def resolve_path_def path_join_def
  startsWith_def endsWith_def strip_md_def flatten_slashes_def trim_def newlines_to_spaces_def
  isWhiteSpace_def relativePath_def path_isAbsolute_def path_relative_def path_segments_def
  updateCacheForFile_def removeFromCache_def cache_delete_def getPrompt_def
  example_tree_def example_matter_def rel_join_def

lemma visible_path_Nil [simp]: "visible_path []"
  by (simp add: visible_path_def startsWith_def)

lemma visible_rel_join:
  "visible_path rel \<Longrightarrow> CHR ''/'' \<notin> set n \<Longrightarrow> \<not> startsWith n ''.'' \<Longrightarrow>
   visible_path (rel_join rel n)"
  by (auto simp: visible_path_def rel_join_def split_on_append split_on_no_sep)

lemma relative_rel_join:
  "\<not> path_isAbsolute rel \<Longrightarrow> n \<noteq> [] \<Longrightarrow> CHR ''/'' \<notin> set n \<Longrightarrow>
   \<not> path_isAbsolute (rel_join rel n)"
  by (cases rel; cases n) (auto simp: path_isAbsolute_def startsWith_def rel_join_def)

lemma endsWith_rel_join: "endsWith n ''.md'' \<Longrightarrow> endsWith (rel_join rel n) ''.md''"
  using endsWith_path_join [of rel n] by (simp add: rel_join_def path_join_def)



lemma scan_paths:
  "names_ok t \<Longrightarrow> visible_path rel \<Longrightarrow> \<not> path_isAbsolute rel \<Longrightarrow>
   list_all (\<lambda>p. visible_path p \<and> \<not> path_isAbsolute p \<and> endsWith p ''.md'')
     (findMarkdownFiles t rel)"
  "entries_names_ok es \<Longrightarrow> visible_path rel \<Longrightarrow> \<not> path_isAbsolute rel \<Longrightarrow>
   list_all (\<lambda>p. visible_path p \<and> \<not> path_isAbsolute p \<and> endsWith p ''.md'')
     (findMarkdownFiles_loop rel es)"
proof (induction t rel and rel es rule: findMarkdownFiles_findMarkdownFiles_loop.induct)
  case (5 rel n x es)
  show ?case
  proof (cases "startsWith n ''.''")
    case True
    with 5 show ?thesis by simp
  next
    case False
    from "5.prems" have n: "n \<noteq> []" "CHR ''/'' \<notin> set n" and x: "names_ok x"
      and es: "entries_names_ok es" by simp_all
    have v: "visible_path (rel_join rel n)"
      using "5.prems"(2) n(2) False by (rule visible_rel_join)
    have a: "\<not> path_isAbsolute (rel_join rel n)"
      using "5.prems"(3) n by (rule relative_rel_join)
    show ?thesis
    proof (cases x)
      case (File d)
      with False 5 es v a show ?thesis by (simp add: endsWith_rel_join)
    next
      case (Dir r sub)
      with False 5 es v a x show ?thesis by simp
    next
      case Other
      with False 5 es show ?thesis by simp
    qed
  qed
qed simp_all

lemma scan_root_paths:
  assumes "names_ok root" and "p \<in> set (findMarkdownFiles root '''')"
  shows "visible_path p" and "\<not> path_isAbsolute p" and "endsWith p ''.md''"
proof -
  have "list_all (\<lambda>p. visible_path p \<and> \<not> path_isAbsolute p \<and> endsWith p ''.md'')
     (findMarkdownFiles root '''')"
    using assms(1) by (rule scan_paths(1)) (simp_all add: path_isAbsolute_def startsWith_def)
  with assms(2) show "visible_path p" and "\<not> path_isAbsolute p" and "endsWith p ''.md''"
    by (simp_all add: list_all_iff)
qed


lemma relativePath_not_absolute: "\<not> path_isAbsolute p \<Longrightarrow> relativePath d p = p"
  by (simp add: relativePath_def)

lemma updateCacheForFile_scanned:
  "endsWith p ''.md'' \<Longrightarrow> \<not> path_isAbsolute p \<Longrightarrow>
   updateCacheForFile matter d root p c =
     (case loadPromptMetadata matter d root p of
        Some r \<Rightarrow> cache_set (name r) r c
      | None \<Rightarrow> c)"
  by (simp add: updateCacheForFile_def relativePath_not_absolute)

lemma set_cache_set: "set (cache_set k v c) \<subseteq> insert (k, v) (set c)"
proof (induction c)
  case Nil
  show ?case by simp
next
  case (Cons e c)
  obtain k' v' where e: "e = (k', v')" by (cases e)
  show ?case
  proof (cases "k' = k")
    case True
    then show ?thesis by (auto simp: e)
  next
    case False
    then show ?thesis using Cons by (auto simp: e)
  qed
qed

lemma bulk_invariant:
  assumes "\<forall>p \<in> set fs. endsWith p ''.md'' \<and> \<not> path_isAbsolute p"
    and "\<forall>e \<in> set c. Q e"
    and "\<forall>p \<in> set fs. \<forall>r. loadPromptMetadata matter d root p = Some r \<longrightarrow> Q (name r, r)"
  shows "\<forall>e \<in> set (foldl (\<lambda>c' file. updateCacheForFile matter d root file c') c fs). Q e"
  using assms
proof (induction fs arbitrary: c)
  case Nil
  then show ?case by simp
next
  case (Cons f fs)
  have step: "\<forall>e \<in> set (updateCacheForFile matter d root f c). Q e"
  proof (cases "loadPromptMetadata matter d root f")
    case None
    with Cons.prems(1,2) show ?thesis by (simp add: updateCacheForFile_scanned)
  next
    case (Some r)
    have q: "Q (name r, r)" using Cons.prems(3) Some by simp
    have "\<forall>e \<in> set (cache_set (name r) r c). Q e"
    proof
      fix e
      assume "e \<in> set (cache_set (name r) r c)"
      then have "e = (name r, r) \<or> e \<in> set c"
        using set_cache_set [of "name r" r c] by blast
      then show "Q e" using q Cons.prems(2) by blast
    qed
    then show ?thesis
      using Some Cons.prems(1) by (simp add: updateCacheForFile_scanned)
  qed
  have p1: "\<forall>p \<in> set fs. endsWith p ''.md'' \<and> \<not> path_isAbsolute p"
    using Cons.prems(1) by simp
  have p3: "\<forall>p \<in> set fs. \<forall>r. loadPromptMetadata matter d root p = Some r \<longrightarrow> Q (name r, r)"
    using Cons.prems(3) by simp
  have "\<forall>e \<in> set (foldl (\<lambda>c' file. updateCacheForFile matter d root file c')
                      (updateCacheForFile matter d root f c) fs). Q e"
    using p1 step p3 by (rule Cons.IH)
  then show ?case by simp
qed


lemma bulk_keys_kept:
  "k \<in> fst ` set c \<Longrightarrow>
   k \<in> fst ` set (foldl (\<lambda>c' file. updateCacheForFile matter d root file c') c fs)"
proof (induction fs arbitrary: c)
  case Nil
  then show ?case by simp
next
  case (Cons f fs)
  have "k \<in> fst ` set (updateCacheForFile matter d root f c)"
    using Cons.prems
    by (auto simp: updateCacheForFile_def keys_cache_set split: option.splits)
  then show ?case using Cons.IH by simp
qed

lemma bulk_keys_complete:
  assumes "\<forall>p \<in> set fs. endsWith p ''.md'' \<and> \<not> path_isAbsolute p"
    and "p \<in> set fs" and "loadPromptMetadata matter d root p = Some r"
  shows "name r \<in> fst ` set (foldl (\<lambda>c' file. updateCacheForFile matter d root file c') c fs)"
  using assms
proof (induction fs arbitrary: c)
  case Nil
  then show ?case by simp
next
  case (Cons f fs)
  show ?case
  proof (cases "p = f")
    case True
    with Cons.prems have "name r \<in> fst ` set (updateCacheForFile matter d root f c)"
      by (simp add: updateCacheForFile_scanned keys_cache_set)
    then show ?thesis using bulk_keys_kept by simp
  next
    case False
    with Cons show ?thesis by simp
  qed
qed

lemma bulk_unique_record:
  assumes "\<forall>p \<in> set fs. endsWith p ''.md'' \<and> \<not> path_isAbsolute p"
    and "\<forall>q \<in> set fs. \<forall>r'. loadPromptMetadata matter d root q = Some r' \<and> name r' = k \<longrightarrow> r' = r"
    and "map_of c k = Some r \<or> (\<exists>p \<in> set fs. loadPromptMetadata matter d root p = Some r \<and> name r = k)"
  shows "map_of (foldl (\<lambda>c' file. updateCacheForFile matter d root file c') c fs) k = Some r"
  using assms
proof (induction fs arbitrary: c)
  case Nil
  then show ?case by simp
next
  case (Cons f fs)
  let ?c = "updateCacheForFile matter d root f c"
  have u: "?c = (case loadPromptMetadata matter d root f of
        Some r \<Rightarrow> cache_set (name r) r c | None \<Rightarrow> c)"
    using Cons.prems(1) by (simp add: updateCacheForFile_scanned)
  have "map_of ?c k = Some r \<or>
        (\<exists>p \<in> set fs. loadPromptMetadata matter d root p = Some r \<and> name r = k)"
  proof (cases "loadPromptMetadata matter d root f")
    case None
    with Cons.prems(3) u show ?thesis by auto
  next
    case (Some r')
    show ?thesis
    proof (cases "name r' = k")
      case True
      with Some Cons.prems(2) have "r' = r" by simp
      with Some True u show ?thesis by (simp add: map_of_cache_set)
    next
      case False
      with Some Cons.prems(3) u show ?thesis by (auto simp: map_of_cache_set)
    qed
  qed
  moreover have "\<forall>p \<in> set fs. endsWith p ''.md'' \<and> \<not> path_isAbsolute p"
    using Cons.prems(1) by simp
  moreover have "\<forall>q \<in> set fs. \<forall>r'. loadPromptMetadata matter d root q = Some r' \<and> name r' = k \<longrightarrow> r' = r"
    using Cons.prems(2) by simp
  ultimately have "map_of (foldl (\<lambda>c' file. updateCacheForFile matter d root file c') ?c fs) k = Some r"
    by (rule Cons.IH [rotated 2])
  then show ?case by simp
qed

lemma bulk_distinct:
  "distinct (map fst c) \<Longrightarrow>
   distinct (map fst (foldl (\<lambda>c' file. updateCacheForFile matter d root file c') c fs))"
  by (induction fs arbitrary: c) (simp_all add: updateCacheForFile_distinct)

lemma initializeCache_present:
  "initializeCache ok done_at matter d (Some root) c =
     Inr (root, foldl (\<lambda>c' file. updateCacheForFile matter d root file c') []
                  (sort_key done_at (findMarkdownFiles root '''')))"
  by (simp add: initializeCache_def ensurePromptsDir_def)

lemma initializeCache_absent:
  "initializeCache ok done_at matter d None c =
     (if ok then Inr (Dir True [], []) else Inl SystemError)"
  by (simp add: initializeCache_def ensurePromptsDir_def)

lemma scan_example:
  "findMarkdownFiles example_tree '''' =
     [''a/b.md'', ''a_b.md'', ''broken.md'', ''locked.md'', ''team/review.md'']"
  by (simp add: example_tree_def startsWith_def endsWith_def rel_join_def)

lemma scan_plain:
  "findMarkdownFiles plain_tree '''' = [''code-review.md'', ''locked.md'', ''team/review.md'']"
  by (simp add: plain_tree_def startsWith_def endsWith_def rel_join_def)

lemma init_example:
  "initializeCache ok (\<lambda>p. 0) example_matter ''/p'' (Some example_tree) c =
     Inr (example_tree,
          [(''a_b'', \<lparr>name = ''a_b'', metadata = (), preview = ''flat...''\<rparr>),
           (''team_review'', \<lparr>name = ''team_review'', metadata = (), preview = ''Review the code...''\<rparr>)])"
  unfolding initializeCache_present scan_example
  by (simp add: eval_simps)


lemma names_ok_example: "names_ok example_tree"
  by (simp add: example_tree_def)

lemma names_ok_plain: "names_ok plain_tree"
  by (simp add: plain_tree_def)

lemma sorted_scan_paths:
  assumes "names_ok root"
  shows "\<forall>p \<in> set (sort_key done_at (findMarkdownFiles root '''')).
           endsWith p ''.md'' \<and> \<not> path_isAbsolute p"
  using scan_root_paths [OF assms] by simp

lemma option_eqI: "(\<And>r. a = Some r \<longleftrightarrow> b = Some r) \<Longrightarrow> a = b"
  by (cases a; cases b) auto

lemma bulk_contents:
  assumes ok: "names_ok root"
    and inj: "\<forall>p \<in> set (findMarkdownFiles root ''''). \<forall>q \<in> set (findMarkdownFiles root '''').
                flatten_slashes (strip_md p) = flatten_slashes (strip_md q) \<longrightarrow> p = q"
  shows "map_of (foldl (\<lambda>c' file. updateCacheForFile matter d root file c') []
                   (sort_key done_at (findMarkdownFiles root ''''))) k = Some r \<longleftrightarrow>
         (\<exists>p \<in> set (findMarkdownFiles root '''').
            loadPromptMetadata matter d root p = Some r \<and> name r = k)"
    (is "map_of ?c k = Some r \<longleftrightarrow> ?R")
proof
  assume "map_of ?c k = Some r"
  then have "(k, r) \<in> set ?c" by (rule map_of_SomeD)
  moreover have "\<forall>e \<in> set ?c. \<exists>p \<in> set (findMarkdownFiles root '''').
      loadPromptMetadata matter d root p = Some (snd e) \<and> name (snd e) = fst e"
    by (rule bulk_invariant [OF sorted_scan_paths [OF ok]]) auto
  ultimately show ?R by fastforce
next
  assume ?R
  then obtain p where p: "p \<in> set (findMarkdownFiles root '''')"
    and l: "loadPromptMetadata matter d root p = Some r" and n: "name r = k" by blast
  have u: "\<forall>q \<in> set (sort_key done_at (findMarkdownFiles root '''')).
      \<forall>r'. loadPromptMetadata matter d root q = Some r' \<and> name r' = k \<longrightarrow> r' = r"
  proof (intro ballI allI impI)
    fix q r'
    assume q: "q \<in> set (sort_key done_at (findMarkdownFiles root ''''))"
      and "loadPromptMetadata matter d root q = Some r' \<and> name r' = k"
    then have l': "loadPromptMetadata matter d root q = Some r'" and n': "name r' = k"
      by simp_all
    have "flatten_slashes (strip_md q) = flatten_slashes (strip_md p)"
      using l l' n n' by (auto simp: loadPromptMetadata_Some)
    with inj p q have "q = p" by simp
    with l l' show "r' = r" by simp
  qed
  show "map_of ?c k = Some r"
    by (rule bulk_unique_record [OF sorted_scan_paths [OF ok] u]) (use p l n in auto)
qed

lemma init_plain_started_order:
  "initializeCache ok (\<lambda>p. 0) example_matter ''/p'' (Some plain_tree) c =
     Inr (plain_tree,
          [(''code-review'', \<lparr>name = ''code-review'', metadata = (),
                               preview = ''You are an experienced engineer...''\<rparr>),
           (''team_review'', \<lparr>name = ''team_review'', metadata = (),
                               preview = ''Review the code...''\<rparr>)])"
  unfolding initializeCache_present scan_plain
  by (simp add: loadPromptMetadata_def fs_readFile_def resolve_path_def path_join_def
      startsWith_def endsWith_def strip_md_def flatten_slashes_def trim_def
      newlines_to_spaces_def isWhiteSpace_def relativePath_def path_isAbsolute_def
      updateCacheForFile_def plain_tree_def example_matter_def)

lemma init_plain_other_order:
  "initializeCache ok (\<lambda>p. if p = ''team/review.md'' then 0 else 1) example_matter ''/p''
     (Some plain_tree) c =
     Inr (plain_tree,
          [(''team_review'', \<lparr>name = ''team_review'', metadata = (),
                               preview = ''Review the code...''\<rparr>),
           (''code-review'', \<lparr>name = ''code-review'', metadata = (),
                               preview = ''You are an experienced engineer...''\<rparr>)])"
  unfolding initializeCache_present scan_plain
  by (simp add: loadPromptMetadata_def fs_readFile_def resolve_path_def path_join_def
      startsWith_def endsWith_def strip_md_def flatten_slashes_def trim_def
      newlines_to_spaces_def isWhiteSpace_def relativePath_def path_isAbsolute_def
      updateCacheForFile_def plain_tree_def example_matter_def)

lemma find_append:
  "List.find P (xs @ ys) = (case List.find P xs of None \<Rightarrow> List.find P ys | Some x \<Rightarrow> Some x)"
  by (induction xs) auto

lemma searchDir_find:
  "searchDir d nm sn t rel =
     map_option (path_join d)
       (List.find (\<lambda>q. strip_md q = nm \<or> sanitizeFileName (strip_md q) = sn)
          (findMarkdownFiles t rel))"
  "searchDir_loop d nm sn rel es =
     map_option (path_join d)
       (List.find (\<lambda>q. strip_md q = nm \<or> sanitizeFileName (strip_md q) = sn)
          (findMarkdownFiles_loop rel es))"
proof (induction d nm sn t rel and d nm sn rel es rule: searchDir_searchDir_loop.induct)
  case (5 d nm sn rel n x es)
  show ?case
  proof (cases "startsWith n ''.''")
    case True
    with 5 show ?thesis by simp
  next
    case False
    show ?thesis
    proof (cases x)
      case (File c)
      with False 5 show ?thesis by simp
    next
      case (Dir r sub)
      with False 5 show ?thesis by (simp add: find_append split: option.splits)
    next
      case Other
      with False 5 show ?thesis by simp
    qed
  qed
qed simp_all

lemma searchDir_exact_find:
  "searchDir_exact d nm t rel =
     map_option (path_join d) (List.find (\<lambda>q. strip_md q = nm) (findMarkdownFiles t rel))"
  "searchDir_exact_loop d nm rel es =
     map_option (path_join d) (List.find (\<lambda>q. strip_md q = nm) (findMarkdownFiles_loop rel es))"
proof (induction d nm t rel and d nm rel es rule: searchDir_exact_searchDir_exact_loop.induct)
  case (5 d nm rel n x es)
  show ?case
  proof (cases "startsWith n ''.''")
    case True
    with 5 show ?thesis by simp
  next
    case False
    show ?thesis
    proof (cases x)
      case (File c)
      with False 5 show ?thesis by simp
    next
      case (Dir r sub)
      with False 5 show ?thesis by (simp add: find_append split: option.splits)
    next
      case Other
      with False 5 show ?thesis by simp
    qed
  qed
qed simp_all

lemma scan_md:
  "list_all (\<lambda>p. endsWith p ''.md'') (findMarkdownFiles t rel)"
  "list_all (\<lambda>p. endsWith p ''.md'') (findMarkdownFiles_loop rel es)"
proof (induction t rel and rel es rule: findMarkdownFiles_findMarkdownFiles_loop.induct)
  case (5 rel n x es)
  show ?case
  proof (cases "startsWith n ''.''")
    case True
    with 5 show ?thesis by simp
  next
    case False
    show ?thesis
    proof (cases x)
      case (File c)
      with False 5 show ?thesis by (simp add: endsWith_rel_join)
    next
      case (Dir r sub)
      with False 5 show ?thesis by simp
    next
      case Other
      with False 5 show ?thesis by simp
    qed
  qed
qed simp_all

lemma toLowerChar_safe: "isSafeChar c \<Longrightarrow> isSafeChar (toLowerChar c) \<and> toLowerChar (toLowerChar c) = toLowerChar c"
  unfolding isSafeChar_def toLowerChar_def by auto

lemma sanitize_char_idem:
  "toLowerChar (if isSafeChar (toLowerChar (if isSafeChar c then c else CHR ''_''))
                then toLowerChar (if isSafeChar c then c else CHR ''_'') else CHR ''_'')
   = toLowerChar (if isSafeChar c then c else CHR ''_'')"
proof (cases "isSafeChar c")
  case True
  then show ?thesis using toLowerChar_safe [of c] by simp
next
  case False
  then show ?thesis by (simp add: isSafeChar_def toLowerChar_def)
qed

lemma sanitizeFileName_idem: "sanitizeFileName (sanitizeFileName s) = sanitizeFileName s"
  by (induction s) (simp_all add: sanitizeFileName_def sanitize_char_idem)

lemma findPromptFile_walk:
  assumes "\<not> fs_access d root (path_join d (sanitizeFileName nm @ ''.md''))"
  shows "findPromptFile d root nm =
     map_option (path_join d)
       (List.find (\<lambda>q. sanitizeFileName (strip_md q) = sanitizeFileName nm)
          (findMarkdownFiles root ''''))"
proof -
  have "List.find (\<lambda>q. strip_md q = nm \<or> sanitizeFileName (strip_md q) = sanitizeFileName nm)
          (findMarkdownFiles root '''')
        = List.find (\<lambda>q. sanitizeFileName (strip_md q) = sanitizeFileName nm)
          (findMarkdownFiles root '''')"
    by (rule find_cong) auto
  moreover have "findPromptFile d root nm =
      searchDir d nm (sanitizeFileName nm) root ''''"
    using assms by (simp add: findPromptFile_def)
  ultimately show ?thesis by (simp only: searchDir_find)
qed

lemma findPromptFile_exact_walk:
  "findPromptFile_exact d root nm =
     map_option (path_join d) (List.find (\<lambda>q. strip_md q = nm) (findMarkdownFiles root ''''))"
  by (simp add: findPromptFile_exact_def searchDir_exact_find)


lemma strip_md_inj:
  assumes "strip_md p = strip_md q" and "endsWith p ''.md''" and "endsWith q ''.md''"
  shows "p = q"
proof -
  have "strip_md p @ ''.md'' = p" using assms(2) by (rule strip_md_restore)
  moreover have "strip_md q @ ''.md'' = q" using assms(3) by (rule strip_md_restore)
  ultimately show ?thesis using assms(1) by metis
qed

lemma find_unique:
  assumes "p \<in> set xs" and "P p" and "\<forall>q \<in> set xs. P q \<longrightarrow> q = p"
  shows "List.find P xs = Some p"
  using assms
proof (induction xs)
  case Nil
  then show ?case by simp
next
  case (Cons a xs)
  show ?case
  proof (cases "P a")
    case True
    with Cons.prems(3) have "a = p" by simp
    with True show ?thesis by simp
  next
    case False
    with Cons.prems(1,2) have "p \<in> set xs" by auto
    moreover have "\<forall>q \<in> set xs. P q \<longrightarrow> q = p" using Cons.prems(3) by simp
    ultimately have "List.find P xs = Some p" using Cons.prems(2) Cons.IH by blast
    with False show ?thesis by simp
  qed
qed

lemma find_SomeD: "List.find P xs = Some x \<Longrightarrow> x \<in> set xs \<and> P x"
  by (induction xs) (simp_all split: if_splits)

lemmas resolve_simps =
  findPromptFile_def findPromptFile_exact_def fs_access_def fs_readFile_def resolve_path_def
  path_join_def sanitizeFileName_def isSafeChar_def toLowerChar_def startsWith_def endsWith_def
  strip_md_def rel_join_def example_tree_def readPrompt_def readPrompt_exact_def not_found_def

lemma rel_join_assoc:
  "c \<noteq> [] \<Longrightarrow> rel_join (rel_join rel c) (join_with CHR ''/'' (v # ws))
     = rel_join rel (join_with CHR ''/'' (c # v # ws))"
  by (simp add: rel_join_def)

lemma visible_file_Cons: "visible_file t cs \<Longrightarrow> cs \<noteq> []"
  by (cases t; cases cs) auto

lemma visible_files_are_scanned:
  "names_ok t \<Longrightarrow> visible_file t cs \<Longrightarrow>
   rel_join rel (join_with CHR ''/'' cs) \<in> set (findMarkdownFiles t rel)"
  "entries_names_ok es \<Longrightarrow> \<not> startsWith c ''.'' \<Longrightarrow> visible_entry es c cs \<Longrightarrow>
   rel_join rel (join_with CHR ''/'' (c # cs)) \<in> set (findMarkdownFiles_loop rel es)"
proof (induction t cs and es c cs arbitrary: rel and rel rule: visible_file_visible_entry.induct)
  case (1 r es c cs)
  then show ?case by simp
next
  case (6 n x es c cs)
  from "6.prems"(1) have n: "n \<noteq> []" and x: "names_ok x" and es: "entries_names_ok es"
    by simp_all
  show ?case
  proof (cases "n = c \<and> (case x of File d \<Rightarrow> cs = [] \<and> endsWith c ''.md''
                               | Dir r sub \<Rightarrow> visible_file x cs | Other \<Rightarrow> False)")
    case True
    then have nc: "n = c" by simp
    with "6.prems"(2) have h: "\<not> startsWith n ''.''" by simp
    show ?thesis
    proof (cases x)
      case (File d)
      with True h show ?thesis by simp
    next
      case (Dir r sub)
      with True have v: "visible_file x cs" by simp
      then obtain v' ws where cs: "cs = v' # ws" using visible_file_Cons by (cases cs) auto
      have "rel_join (rel_join rel n) (join_with CHR ''/'' cs) \<in> set (findMarkdownFiles x (rel_join rel n))"
        using "6.IH"(1) [OF Dir x v] .
      then have "rel_join rel (join_with CHR ''/'' (c # cs)) \<in> set (findMarkdownFiles x (rel_join rel n))"
        using n nc by (simp add: cs rel_join_assoc)
      with Dir h show ?thesis by simp
    next
      case Other
      with True show ?thesis by simp
    qed
  next
    case False
    with "6.prems"(3) have "visible_entry es c cs" by auto
    then have "rel_join rel (join_with CHR ''/'' (c # cs)) \<in> set (findMarkdownFiles_loop rel es)"
      using "6.IH"(2) es "6.prems"(2) by blast
    then show ?thesis by (cases x) auto
  qed
qed simp_all


lemma scanned_files_are_visible:
  "names_ok t \<Longrightarrow> p \<in> set (findMarkdownFiles t rel) \<Longrightarrow>
   \<exists>cs. p = rel_join rel (join_with CHR ''/'' cs) \<and> visible_file t cs"
  "entries_names_ok es \<Longrightarrow> p \<in> set (findMarkdownFiles_loop rel es) \<Longrightarrow>
   \<exists>c cs. p = rel_join rel (join_with CHR ''/'' (c # cs)) \<and> \<not> startsWith c ''.'' \<and>
          visible_entry es c cs"
proof (induction t rel and rel es rule: findMarkdownFiles_findMarkdownFiles_loop.induct)
  case (1 readable es rel)
  then obtain c cs where "p = rel_join rel (join_with CHR ''/'' (c # cs))"
    and "\<not> startsWith c ''.''" and "visible_entry es c cs" and "readable"
    by (auto split: if_splits)
  then have "p = rel_join rel (join_with CHR ''/'' (c # cs)) \<and> visible_file (Dir readable es) (c # cs)"
    by simp
  then show ?case by blast
next
  case (5 rel n x es)
  from "5.prems"(1) have n: "n \<noteq> []" and x: "names_ok x" and es: "entries_names_ok es"
    by simp_all
  have later: "\<exists>c cs. p = rel_join rel (join_with CHR ''/'' (c # cs)) \<and> \<not> startsWith c ''.'' \<and>
          visible_entry ((n, x) # es) c cs"
    if "\<exists>c cs. p = rel_join rel (join_with CHR ''/'' (c # cs)) \<and> \<not> startsWith c ''.'' \<and>
          visible_entry es c cs"
    using that by auto
  show ?case
  proof (cases "startsWith n ''.''")
    case True
    with "5.prems"(2) have "p \<in> set (findMarkdownFiles_loop rel es)" by simp
    then show ?thesis using "5.IH"(1) [OF True es] later by blast
  next
    case False
    show ?thesis
    proof (cases x)
      case (File d)
      show ?thesis
      proof (cases "endsWith n ''.md'' \<and> p = rel_join rel n")
        case True
        then have "p = rel_join rel (join_with CHR ''/'' (n # [])) \<and> \<not> startsWith n ''.'' \<and>
          visible_entry ((n, x) # es) n []"
          using False File by simp
        then show ?thesis by blast
      next
        case no: False
        with "5.prems"(2) False File have "p \<in> set (findMarkdownFiles_loop rel es)"
          by (auto split: if_splits)
        then have "\<exists>c cs. p = rel_join rel (join_with CHR ''/'' (c # cs)) \<and>
            \<not> startsWith c ''.'' \<and> visible_entry es c cs"
        proof (cases "endsWith n ''.md''")
          case True
          show ?thesis using "5.IH"(2) [OF False File True es] \<open>p \<in> set (findMarkdownFiles_loop rel es)\<close> .
        next
          case nomd: False
          show ?thesis using "5.IH"(3) [OF False File nomd es] \<open>p \<in> set (findMarkdownFiles_loop rel es)\<close> .
        qed
        then show ?thesis by (rule later)
      qed
    next
      case (Dir r sub)
      from "5.prems"(2) False Dir
      consider "p \<in> set (findMarkdownFiles x (rel_join rel n))"
        | "p \<in> set (findMarkdownFiles_loop rel es)" by auto
      then show ?thesis
      proof cases
        case 1
        then obtain cs where p: "p = rel_join (rel_join rel n) (join_with CHR ''/'' cs)"
          and v: "visible_file x cs"
          using "5.IH"(4) [OF False Dir x] by blast
        from v obtain v' ws where cs: "cs = v' # ws" using visible_file_Cons by (cases cs) auto
        have "p = rel_join rel (join_with CHR ''/'' (n # cs))"
          using p n by (simp add: cs rel_join_assoc)
        moreover have "visible_entry ((n, x) # es) n cs" using v Dir by simp
        ultimately show ?thesis using False by blast
      next
        case 2
        then show ?thesis using "5.IH"(5) [OF False Dir es] later by blast
      qed
    next
      case Other
      with "5.prems"(2) False have "p \<in> set (findMarkdownFiles_loop rel es)" by simp
      then show ?thesis using "5.IH"(6) [OF False Other es] later by blast
    qed
  qed
qed simp_all

lemma scan_characterisation:
  assumes "names_ok root"
  shows "p \<in> set (findMarkdownFiles root '''') \<longleftrightarrow>
         (\<exists>cs. p = join_with CHR ''/'' cs \<and> visible_file root cs)"
  using visible_files_are_scanned(1) [OF assms, of _ "''''"]
    scanned_files_are_visible(1) [OF assms, of p "''''"]
  by (auto simp: rel_join_def)

lemma loaded_name: "loadPromptMetadata matter d root p = Some r \<Longrightarrow> name r = flatten_slashes (strip_md p)"
  by (auto simp: loadPromptMetadata_Some)

lemma bulk_last_wins:
  assumes "\<forall>p \<in> set fs. endsWith p ''.md'' \<and> \<not> path_isAbsolute p"
  shows "map_of (foldl (\<lambda>c' file. updateCacheForFile matter d root file c') [] fs) k =
         (case List.find (\<lambda>p. loadPromptMetadata matter d root p \<noteq> None \<and>
                               flatten_slashes (strip_md p) = k) (rev fs) of
            None \<Rightarrow> None
          | Some p \<Rightarrow> loadPromptMetadata matter d root p)"
  using assms
proof (induction fs rule: rev_induct)
  case Nil
  show ?case by simp
next
  case (snoc x xs)
  have ih: "map_of (foldl (\<lambda>c' file. updateCacheForFile matter d root file c') [] xs) k =
         (case List.find (\<lambda>p. loadPromptMetadata matter d root p \<noteq> None \<and>
                               flatten_slashes (strip_md p) = k) (rev xs) of
            None \<Rightarrow> None
          | Some p \<Rightarrow> loadPromptMetadata matter d root p)"
    using snoc by simp
  have x: "endsWith x ''.md''" "\<not> path_isAbsolute x" using snoc.prems by simp_all
  show ?case
  proof (cases "loadPromptMetadata matter d root x")
    case None
    then show ?thesis using ih x by (simp add: updateCacheForFile_scanned)
  next
    case (Some r)
    have n: "name r = flatten_slashes (strip_md x)" using Some by (rule loaded_name)
    show ?thesis
    proof (cases "flatten_slashes (strip_md x) = k")
      case True
      then show ?thesis using Some n x by (simp add: updateCacheForFile_scanned map_of_cache_set)
    next
      case False
      then show ?thesis using Some n x ih
        by (simp add: updateCacheForFile_scanned map_of_cache_set)
    qed
  qed
qed

lemma bulk_contents_equal_records:
  assumes ok: "names_ok root"
    and eq: "\<forall>p \<in> set (findMarkdownFiles root ''''). \<forall>q \<in> set (findMarkdownFiles root ''''). \<forall>r r'.
               loadPromptMetadata matter d root p = Some r \<and>
               loadPromptMetadata matter d root q = Some r' \<and>
               flatten_slashes (strip_md p) = flatten_slashes (strip_md q) \<longrightarrow> r = r'"
  shows "map_of (foldl (\<lambda>c' file. updateCacheForFile matter d root file c') []
                   (sort_key done_at (findMarkdownFiles root ''''))) k = Some r \<longleftrightarrow>
         (\<exists>p \<in> set (findMarkdownFiles root '''').
            loadPromptMetadata matter d root p = Some r \<and> name r = k)"
    (is "map_of ?c k = Some r \<longleftrightarrow> ?R")
proof
  assume "map_of ?c k = Some r"
  then have "(k, r) \<in> set ?c" by (rule map_of_SomeD)
  moreover have "\<forall>e \<in> set ?c. \<exists>p \<in> set (findMarkdownFiles root '''').
      loadPromptMetadata matter d root p = Some (snd e) \<and> name (snd e) = fst e"
    by (rule bulk_invariant [OF sorted_scan_paths [OF ok]]) auto
  ultimately show ?R by fastforce
next
  assume ?R
  then obtain p where p: "p \<in> set (findMarkdownFiles root '''')"
    and l: "loadPromptMetadata matter d root p = Some r" and n: "name r = k" by blast
  have u: "\<forall>q \<in> set (sort_key done_at (findMarkdownFiles root '''')).
      \<forall>r'. loadPromptMetadata matter d root q = Some r' \<and> name r' = k \<longrightarrow> r' = r"
  proof (intro ballI allI impI)
    fix q r'
    assume q: "q \<in> set (sort_key done_at (findMarkdownFiles root ''''))"
      and "loadPromptMetadata matter d root q = Some r' \<and> name r' = k"
    then have l': "loadPromptMetadata matter d root q = Some r'" and n': "name r' = k"
      by simp_all
    have "flatten_slashes (strip_md q) = flatten_slashes (strip_md p)"
      using loaded_name [OF l] loaded_name [OF l'] n n' by simp
    moreover have "q \<in> set (findMarkdownFiles root '''')" using q by simp
    ultimately show "r' = r" using eq p l l' by blast
  qed
  show "map_of ?c k = Some r"
    by (rule bulk_unique_record [OF sorted_scan_paths [OF ok] u]) (use p l n in auto)
qed

lemma find_first:
  "\<forall>y \<in> set ys. \<not> P y \<Longrightarrow> P p \<Longrightarrow> List.find P (ys @ p # zs) = Some p"
  by (induction ys) simp_all

lemma scan_shadow: "findMarkdownFiles shadow_tree '''' = [''X_Y.md'', ''x y.md'']"
  by (simp add: shadow_tree_def startsWith_def endsWith_def rel_join_def)

section \<open>Properties of the index cache\<close>

text \<open>
  C10: for a path that does not end in \<^verbatim>\<open>.md\<close>, \<^verbatim>\<open>updateCacheForFile\<close> returns the
  cache as it was, and \<^verbatim>\<open>removeFromCache\<close>, which has the same guard, does so too.
\<close>

theorem noop_without_md_extension:
  "\<not> endsWith p ''.md'' \<Longrightarrow>
   updateCacheForFile matter d root p c = c \<and> removeFromCache d p c = c"
  by (simp add: updateCacheForFile_def removeFromCache_def)

text \<open>The theorem at \<^verbatim>\<open>notes.txt\<close> and a cache of one entry.\<close>

theorem noop_without_md_extension_witness:
  "\<not> endsWith ''notes.txt'' ''.md'' \<and>
   updateCacheForFile (\<lambda>s. Some ((), s)) ''/p'' (Dir True [(''notes.txt'', File (Some ''x''))])
     ''notes.txt'' [(''notes.txt'', \<lparr>name = ''notes.txt'', metadata = (), preview = ''old...''\<rparr>)]
     = [(''notes.txt'', \<lparr>name = ''notes.txt'', metadata = (), preview = ''old...''\<rparr>)] \<and>
   removeFromCache ''/p'' ''notes.txt''
     [(''notes.txt'', \<lparr>name = ''notes.txt'', metadata = (), preview = ''old...''\<rparr>)]
     = [(''notes.txt'', \<lparr>name = ''notes.txt'', metadata = (), preview = ''old...''\<rparr>)]"
proof -
  have h: "\<not> endsWith ''notes.txt'' ''.md''" by (simp add: endsWith_def)
  from noop_without_md_extension [OF h] h show ?thesis by simp
qed

text \<open>
  C2: the record loaded from the root-relative path \<open>stem @ ''.md''\<close> has as its name
  the stem with every separator \<^verbatim>\<open>/\<close> replaced by an underscore (equally: the segments
  of the stem joined by underscores), so the name holds no separator.
\<close>

theorem record_name_flattens_path:
  "loadPromptMetadata matter d root (stem @ ''.md'') = Some r \<Longrightarrow>
   name r = map (\<lambda>c. if c = CHR ''/'' then CHR ''_'' else c) stem \<and>
   name r = join_with CHR ''_'' (split_on CHR ''/'' stem) \<and>
   CHR ''/'' \<notin> set (name r)"
  by (auto simp: loadPromptMetadata_Some join_underscore_split flatten_slashes_def)

text \<open>The theorem at \<^verbatim>\<open>a/b.md\<close>, whose record is named \<^verbatim>\<open>a_b\<close>.\<close>

theorem record_name_flattens_path_witness:
  "loadPromptMetadata (\<lambda>s. Some ((), s)) ''/p''
     (Dir True [(''a'', Dir True [(''b.md'', File (Some ''nested''))])]) (''a/b'' @ ''.md'')
     = Some \<lparr>name = ''a_b'', metadata = (), preview = ''nested...''\<rparr> \<and>
   name \<lparr>name = ''a_b'', metadata = (), preview = ''nested...''\<rparr> = ''a_b''"
proof -
  have h: "loadPromptMetadata (\<lambda>s. Some ((), s)) ''/p''
     (Dir True [(''a'', Dir True [(''b.md'', File (Some ''nested''))])]) (''a/b'' @ ''.md'')
     = Some \<lparr>name = ''a_b'', metadata = (), preview = ''nested...''\<rparr>"
    by (simp add: loadPromptMetadata_def fs_readFile_def resolve_path_def path_join_def
        startsWith_def strip_md_def endsWith_def flatten_slashes_def trim_def
        newlines_to_spaces_def isWhiteSpace_def)
  from record_name_flattens_path [OF h] h show ?thesis by simp
qed

text \<open>
  C8: the preview of a loaded record is the first 100 characters of the parsed body, each
  newline replaced by a space, trimmed, followed by three dots. So it is at most 100
  characters and the dots, holds no newline, and its text neither begins nor ends with
  white space. Every load builds it anew from the file: an upsert stores the fresh record
  whole, whatever the cache held before.
\<close>

theorem preview_of_loaded_record:
  "loadPromptMetadata matter d root p = Some r \<Longrightarrow>
   (\<exists>content data body.
      fs_readFile d root (path_join d p) = Some content \<and>
      matter content = Some (data, body) \<and>
      preview r =
        trim (map (\<lambda>c. if c = CHR 0x0A then CHR '' '' else c) (take 100 body)) @ ''...'') \<and>
   (\<exists>t. preview r = t @ ''...'' \<and> length t \<le> 100 \<and> CHR 0x0A \<notin> set t \<and>
        (t \<noteq> [] \<longrightarrow> \<not> isWhiteSpace (hd t) \<and> \<not> isWhiteSpace (last t))) \<and>
   (\<forall>p' c. endsWith p' ''.md'' \<and> relativePath d p' = p \<longrightarrow>
      getPrompt (updateCacheForFile matter d root p' c) (name r) = Some r)"
proof -
  assume h: "loadPromptMetadata matter d root p = Some r"
  then obtain content data body where
    rd: "fs_readFile d root (path_join d p) = Some content" and
    pm: "matter content = Some (data, body)" and
    r: "r = \<lparr> name = flatten_slashes (strip_md p), metadata = data,
              preview = trim (newlines_to_spaces (take 100 body)) @ ''...'' \<rparr>"
    unfolding loadPromptMetadata_Some by blast
  let ?t = "trim (newlines_to_spaces (take 100 body))"
  have pv: "preview r = ?t @ ''...''" by (simp add: r)
  have len: "length ?t \<le> 100"
    using length_trim [of "newlines_to_spaces (take 100 body)"]
    by (simp add: newlines_to_spaces_def)
  have nl: "CHR 0x0A \<notin> set ?t"
    using set_trim [of "newlines_to_spaces (take 100 body)"] no_newline_after_replace by blast
  have c1: "\<exists>content data body.
      fs_readFile d root (path_join d p) = Some content \<and>
      matter content = Some (data, body) \<and>
      preview r =
        trim (map (\<lambda>c. if c = CHR 0x0A then CHR '' '' else c) (take 100 body)) @ ''...''"
    using rd pm pv unfolding newlines_to_spaces_def by blast
  have c2: "\<exists>t. preview r = t @ ''...'' \<and> length t \<le> 100 \<and> CHR 0x0A \<notin> set t \<and>
        (t \<noteq> [] \<longrightarrow> \<not> isWhiteSpace (hd t) \<and> \<not> isWhiteSpace (last t))"
    using pv len nl trim_ends [of "newlines_to_spaces (take 100 body)"] by blast
  have c3: "\<forall>p' c. endsWith p' ''.md'' \<and> relativePath d p' = p \<longrightarrow>
      getPrompt (updateCacheForFile matter d root p' c) (name r) = Some r"
    using h by (auto simp: updateCacheForFile_loaded getPrompt_def map_of_cache_set)
  from c1 c2 c3 show ?thesis by blast
qed

text \<open>The theorem at \<^verbatim>\<open>a/b.md\<close>, with a cache that holds an older record of that name.\<close>

theorem preview_of_loaded_record_witness:
  "loadPromptMetadata example_matter ''/p'' example_tree ''a/b.md''
     = Some \<lparr>name = ''a_b'', metadata = (), preview = ''Hi you...''\<rparr> \<and>
   endsWith ''a/b.md'' ''.md'' \<and> relativePath ''/p'' ''a/b.md'' = ''a/b.md'' \<and>
   getPrompt (updateCacheForFile example_matter ''/p'' example_tree ''a/b.md''
                [(''a_b'', \<lparr>name = ''a_b'', metadata = (), preview = ''flat...''\<rparr>)]) ''a_b''
     = Some \<lparr>name = ''a_b'', metadata = (), preview = ''Hi you...''\<rparr>"
proof -
  have h: "loadPromptMetadata example_matter ''/p'' example_tree ''a/b.md''
     = Some \<lparr>name = ''a_b'', metadata = (), preview = ''Hi you...''\<rparr>"
    by (simp add: eval_simps)
  have e: "endsWith ''a/b.md'' ''.md'' \<and> relativePath ''/p'' ''a/b.md'' = ''a/b.md''"
    by (simp add: endsWith_def relativePath_def path_isAbsolute_def startsWith_def)
  from preview_of_loaded_record [OF h] e h show ?thesis by simp
qed

text \<open>
  C5: for a path that ends in \<^verbatim>\<open>.md\<close>, \<^verbatim>\<open>removeFromCache\<close> deletes the key that
  \<^verbatim>\<open>updateCacheForFile\<close> stores under: the root-relative path without the extension and
  with every separator replaced by an underscore, computed from the path alone (the
  function has no access to the file system). An absolute path below the root is made
  root-relative first. Where the key is absent the cache is returned as it is, and after
  an upsert and a removal of the same path the lookup of that name finds nothing.
\<close>

theorem remove_matches_upsert:
  "endsWith p ''.md'' \<Longrightarrow>
   (\<forall>r. loadPromptMetadata matter d root (relativePath d p) = Some r \<longrightarrow>
        updateCacheForFile matter d root p c = cache_set (name r) r c \<and>
        removeFromCache d p c' = cache_delete (name r) c') \<and>
   removeFromCache d p c' =
     cache_delete (map (\<lambda>x. if x = CHR ''/'' then CHR ''_'' else x) (strip_md (relativePath d p))) c' \<and>
   (getPrompt c' (flatten_slashes (strip_md (relativePath d p))) = None \<longrightarrow>
        removeFromCache d p c' = c') \<and>
   getPrompt (removeFromCache d p (updateCacheForFile matter d root p c))
     (flatten_slashes (strip_md (relativePath d p))) = None \<and>
   (\<forall>rel. path_isAbsolute d \<and> [] \<notin> set (split_on CHR ''/'' rel) \<and> p = path_join d rel \<longrightarrow>
        relativePath d p = rel \<and> removeFromCache d p c' = removeFromCache d rel c')"
proof -
  assume e: "endsWith p ''.md''"
  have c1: "\<forall>r. loadPromptMetadata matter d root (relativePath d p) = Some r \<longrightarrow>
        updateCacheForFile matter d root p c = cache_set (name r) r c \<and>
        removeFromCache d p c' = cache_delete (name r) c'"
    using e by (auto simp: updateCacheForFile_loaded removeFromCache_def loadPromptMetadata_Some)
  have c2: "removeFromCache d p c' =
     cache_delete (map (\<lambda>x. if x = CHR ''/'' then CHR ''_'' else x) (strip_md (relativePath d p))) c'"
    using e by (simp add: removeFromCache_def flatten_slashes_def)
  have c3: "getPrompt c' (flatten_slashes (strip_md (relativePath d p))) = None \<longrightarrow>
        removeFromCache d p c' = c'"
    using e by (simp add: removeFromCache_def getPrompt_def cache_delete_absent)
  have c4: "getPrompt (removeFromCache d p (updateCacheForFile matter d root p c))
     (flatten_slashes (strip_md (relativePath d p))) = None"
    using e by (simp add: removeFromCache_def getPrompt_def map_of_cache_delete)
  have c5: "\<forall>rel. path_isAbsolute d \<and> [] \<notin> set (split_on CHR ''/'' rel) \<and> p = path_join d rel \<longrightarrow>
        relativePath d p = rel \<and> removeFromCache d p c' = removeFromCache d rel c'"
  proof (intro allI impI, elim conjE)
    fix rel
    assume a: "path_isAbsolute d" and s: "[] \<notin> set (split_on CHR ''/'' rel)"
      and p: "p = path_join d rel"
    have r1: "relativePath d p = rel" using a s p by (simp add: relativePath_join)
    have r2: "relativePath d rel = rel" using s by (rule relativePath_relative)
    have "endsWith rel ''.md''"
      using e p by (simp add: endsWith_path_join)
    then show "relativePath d p = rel \<and> removeFromCache d p c' = removeFromCache d rel c'"
      using e r1 r2 by (simp add: removeFromCache_def)
  qed
  from c1 c2 c3 c4 c5 show ?thesis by blast
qed

text \<open>The theorem at the absolute path \<^verbatim>\<open>/p/a/b.md\<close> below the root \<^verbatim>\<open>/p\<close>.\<close>

theorem remove_matches_upsert_witness:
  "endsWith ''/p/a/b.md'' ''.md'' \<and>
   loadPromptMetadata example_matter ''/p'' example_tree (relativePath ''/p'' ''/p/a/b.md'')
     = Some \<lparr>name = ''a_b'', metadata = (), preview = ''Hi you...''\<rparr> \<and>
   getPrompt ([] :: unit cache) ''a_b'' = None \<and>
   path_isAbsolute ''/p'' \<and> [] \<notin> set (split_on CHR ''/'' ''a/b.md'') \<and>
   ''/p/a/b.md'' = path_join ''/p'' ''a/b.md'' \<and>
   relativePath ''/p'' ''/p/a/b.md'' = ''a/b.md'' \<and>
   flatten_slashes (strip_md (relativePath ''/p'' ''/p/a/b.md'')) = ''a_b'' \<and>
   updateCacheForFile example_matter ''/p'' example_tree ''/p/a/b.md'' []
     = [(''a_b'', \<lparr>name = ''a_b'', metadata = (), preview = ''Hi you...''\<rparr>)] \<and>
   removeFromCache ''/p'' ''/p/a/b.md''
      [(''a_b'', \<lparr>name = ''a_b'', metadata = (), preview = ''Hi you...''\<rparr>)] = [] \<and>
   removeFromCache ''/p'' ''/p/a/b.md'' ([] :: unit cache) = [] \<and>
   getPrompt (removeFromCache ''/p'' ''/p/a/b.md''
                (updateCacheForFile example_matter ''/p'' example_tree ''/p/a/b.md'' []))
     ''a_b'' = None"
proof -
  have e: "endsWith ''/p/a/b.md'' ''.md''" by (simp add: endsWith_def)
  show ?thesis
    using remove_matches_upsert [OF e, of example_matter "''/p''" example_tree "[]"
      "[(''a_b'', \<lparr>name = ''a_b'', metadata = (), preview = ''Hi you...''\<rparr>)]"]
    by (simp add: eval_simps)
qed

text \<open>
  C4: the keys of the cache are unique. When two paths flatten to the same name and both
  files load, upserting one and then the other leaves exactly one entry under that name,
  the record of the second; the number of entries does not grow with the second upsert.
  An upsert returns a cache, never an exception.
\<close>

theorem colliding_names_last_loaded_wins:
  "distinct (map fst c) \<Longrightarrow> endsWith p1 ''.md'' \<Longrightarrow> endsWith p2 ''.md'' \<Longrightarrow>
   loadPromptMetadata matter d root (relativePath d p1) = Some r1 \<Longrightarrow>
   loadPromptMetadata matter d root (relativePath d p2) = Some r2 \<Longrightarrow>
   flatten_slashes (strip_md (relativePath d p1)) = flatten_slashes (strip_md (relativePath d p2)) \<Longrightarrow>
   name r1 = name r2 \<and>
   filter (\<lambda>e. fst e = name r2)
     (updateCacheForFile matter d root p2 (updateCacheForFile matter d root p1 c))
     = [(name r2, r2)] \<and>
   getPrompt (updateCacheForFile matter d root p2 (updateCacheForFile matter d root p1 c)) (name r2)
     = Some r2 \<and>
   distinct (map fst (updateCacheForFile matter d root p2 (updateCacheForFile matter d root p1 c))) \<and>
   length (updateCacheForFile matter d root p2 (updateCacheForFile matter d root p1 c))
     = length (updateCacheForFile matter d root p1 c)"
proof -
  assume dc: "distinct (map fst c)" and e1: "endsWith p1 ''.md''" and e2: "endsWith p2 ''.md''"
    and l1: "loadPromptMetadata matter d root (relativePath d p1) = Some r1"
    and l2: "loadPromptMetadata matter d root (relativePath d p2) = Some r2"
    and fl: "flatten_slashes (strip_md (relativePath d p1)) =
             flatten_slashes (strip_md (relativePath d p2))"
  let ?c1 = "updateCacheForFile matter d root p1 c"
  let ?c2 = "updateCacheForFile matter d root p2 ?c1"
  have n: "name r1 = name r2" using l1 l2 fl by (auto simp: loadPromptMetadata_Some)
  have d1: "distinct (map fst ?c1)" using dc by (rule updateCacheForFile_distinct)
  have u1: "?c1 = cache_set (name r1) r1 c" using e1 l1 by (rule updateCacheForFile_loaded)
  have u2: "?c2 = cache_set (name r2) r2 ?c1" using e2 l2 by (rule updateCacheForFile_loaded)
  have f: "filter (\<lambda>e. fst e = name r2) ?c2 = [(name r2, r2)]"
    unfolding u2 using d1 by (rule filter_cache_set)
  have g: "getPrompt ?c2 (name r2) = Some r2"
    unfolding u2 by (simp add: getPrompt_def map_of_cache_set)
  have d2: "distinct (map fst ?c2)" using d1 by (rule updateCacheForFile_distinct)
  have "name r2 \<in> set (map fst ?c1)" unfolding u1 by (simp add: keys_cache_set n)
  then have len: "length ?c2 = length ?c1" unfolding u2 by (rule length_cache_set_present)
  from n f g d2 len show ?thesis by blast
qed

text \<open>The theorem at \<^verbatim>\<open>a/b.md\<close> and \<^verbatim>\<open>a_b.md\<close>, in both orders.\<close>

theorem colliding_names_last_loaded_wins_witness:
  "distinct (map fst ([] :: unit cache)) \<and>
   endsWith ''a/b.md'' ''.md'' \<and> endsWith ''a_b.md'' ''.md'' \<and>
   loadPromptMetadata example_matter ''/p'' example_tree (relativePath ''/p'' ''a/b.md'')
     = Some \<lparr>name = ''a_b'', metadata = (), preview = ''Hi you...''\<rparr> \<and>
   loadPromptMetadata example_matter ''/p'' example_tree (relativePath ''/p'' ''a_b.md'')
     = Some \<lparr>name = ''a_b'', metadata = (), preview = ''flat...''\<rparr> \<and>
   flatten_slashes (strip_md (relativePath ''/p'' ''a/b.md''))
     = flatten_slashes (strip_md (relativePath ''/p'' ''a_b.md'')) \<and>
   updateCacheForFile example_matter ''/p'' example_tree ''a_b.md''
     (updateCacheForFile example_matter ''/p'' example_tree ''a/b.md'' [])
     = [(''a_b'', \<lparr>name = ''a_b'', metadata = (), preview = ''flat...''\<rparr>)] \<and>
   updateCacheForFile example_matter ''/p'' example_tree ''a/b.md''
     (updateCacheForFile example_matter ''/p'' example_tree ''a_b.md'' [])
     = [(''a_b'', \<lparr>name = ''a_b'', metadata = (), preview = ''Hi you...''\<rparr>)]"
proof -
  have d: "distinct (map fst ([] :: unit cache))" by simp
  have e1: "endsWith ''a/b.md'' ''.md''" and e2: "endsWith ''a_b.md'' ''.md''"
    by (simp_all add: endsWith_def)
  have l1: "loadPromptMetadata example_matter ''/p'' example_tree (relativePath ''/p'' ''a/b.md'')
     = Some \<lparr>name = ''a_b'', metadata = (), preview = ''Hi you...''\<rparr>"
    by (simp add: eval_simps)
  have l2: "loadPromptMetadata example_matter ''/p'' example_tree (relativePath ''/p'' ''a_b.md'')
     = Some \<lparr>name = ''a_b'', metadata = (), preview = ''flat...''\<rparr>"
    by (simp add: eval_simps)
  have f: "flatten_slashes (strip_md (relativePath ''/p'' ''a/b.md''))
     = flatten_slashes (strip_md (relativePath ''/p'' ''a_b.md''))"
    by (simp add: eval_simps)
  have u1: "updateCacheForFile example_matter ''/p'' example_tree ''a/b.md'' []
     = [(''a_b'', \<lparr>name = ''a_b'', metadata = (), preview = ''Hi you...''\<rparr>)]"
    using e1 l1 by (simp add: updateCacheForFile_def)
  have u2: "updateCacheForFile example_matter ''/p'' example_tree ''a_b.md'' []
     = [(''a_b'', \<lparr>name = ''a_b'', metadata = (), preview = ''flat...''\<rparr>)]"
    using e2 l2 by (simp add: updateCacheForFile_def)
  from colliding_names_last_loaded_wins [OF d e1 e2 l1 l2 f]
    colliding_names_last_loaded_wins [OF d e2 e1 l2 l1 f [symmetric]]
    d e1 e2 l1 l2 f u1 u2
  show ?thesis
    by (simp add: updateCacheForFile_def)
qed

text \<open>
  C7: the scan skips every entry whose name starts with a dot, and with a directory all
  that lies below it. A path with a segment that starts with a dot is in no scan result,
  and every entry that a bulk load leaves in the cache was loaded from a scanned file,
  which is another path.
\<close>

theorem hidden_entries_never_scanned:
  assumes "names_ok root" and "s \<in> set (split_on CHR ''/'' p)" and "startsWith s ''.''"
  shows "p \<notin> set (findMarkdownFiles root '''') \<and>
         (\<forall>root' c'. initializeCache ok done_at matter d (Some root) c = Inr (root', c') \<longrightarrow>
            (\<forall>e \<in> set c'. \<exists>q \<in> set (findMarkdownFiles root '''').
               q \<noteq> p \<and> loadPromptMetadata matter d root q = Some (snd e) \<and>
               fst e = name (snd e)))"
proof -
  have np: "p \<notin> set (findMarkdownFiles root '''')"
  proof
    assume "p \<in> set (findMarkdownFiles root '''')"
    then have "visible_path p" by (rule scan_root_paths(1) [OF assms(1)])
    with assms(2,3) show False by (simp add: visible_path_def)
  qed
  have "\<forall>e \<in> set (foldl (\<lambda>c' file. updateCacheForFile matter d root file c') []
                      (sort_key done_at (findMarkdownFiles root ''''))).
          \<exists>q \<in> set (findMarkdownFiles root '''').
            q \<noteq> p \<and> loadPromptMetadata matter d root q = Some (snd e) \<and> fst e = name (snd e)"
    by (rule bulk_invariant [OF sorted_scan_paths [OF assms(1)]]) (use np in auto)
  with np show ?thesis by (simp add: initializeCache_present)
qed

text \<open>The theorem at \<^verbatim>\<open>.hidden/x.md\<close>, a file that exists in the sample tree.\<close>

theorem hidden_entries_never_scanned_witness:
  "names_ok example_tree \<and> ''.hidden'' \<in> set (split_on CHR ''/'' ''.hidden/x.md'') \<and>
   startsWith ''.hidden'' ''.'' \<and>
   node_lookup example_tree (split_on CHR ''/'' ''.hidden/x.md'') = Some (File (Some ''secret'')) \<and>
   findMarkdownFiles example_tree '''' =
     [''a/b.md'', ''a_b.md'', ''broken.md'', ''locked.md'', ''team/review.md''] \<and>
   ''.hidden/x.md'' \<notin> set (findMarkdownFiles example_tree '''') \<and>
   initializeCache True (\<lambda>p. 0) example_matter ''/p'' (Some example_tree) [] =
     Inr (example_tree,
          [(''a_b'', \<lparr>name = ''a_b'', metadata = (), preview = ''flat...''\<rparr>),
           (''team_review'', \<lparr>name = ''team_review'', metadata = (), preview = ''Review the code...''\<rparr>)])"
proof -
  have h1: "names_ok example_tree" by (rule names_ok_example)
  have h2: "''.hidden'' \<in> set (split_on CHR ''/'' ''.hidden/x.md'')" by simp
  have h3: "startsWith ''.hidden'' ''.''" by (simp add: startsWith_def)
  have l: "node_lookup example_tree (split_on CHR ''/'' ''.hidden/x.md'') = Some (File (Some ''secret''))"
    by (simp add: example_tree_def)
  from hidden_entries_never_scanned [OF h1 h2 h3, of True "\<lambda>p. 0" example_matter "''/p''" "[]"]
    h1 h2 h3 l scan_example init_example [of True "[]"]
  show ?thesis by simp
qed

text \<open>
  C6: a failure of one file is absorbed. \<^verbatim>\<open>loadPromptMetadata\<close> returns no record where
  the read is rejected and where the parser throws. A bulk load over an existing directory
  returns normally, whatever its files are. Its cache holds only records loaded from
  scanned files, each under its own name; the name of every scanned file that loads is a
  key; and a scanned file that loads and shares its flattened name with no other scanned
  file is found under its name with its own record.
\<close>

theorem load_failures_are_absorbed:
  "(fs_readFile d root (path_join d p) = None \<longrightarrow> loadPromptMetadata matter d root p = None) \<and>
   (\<forall>content. fs_readFile d root (path_join d p) = Some content \<and> matter content = None \<longrightarrow>
        loadPromptMetadata matter d root p = None) \<and>
   (\<exists>c'. initializeCache ok done_at matter d (Some root) c = Inr (root, c') \<and>
      distinct (map fst c') \<and>
      (names_ok root \<longrightarrow>
         (\<forall>e \<in> set c'. \<exists>q \<in> set (findMarkdownFiles root '''').
            loadPromptMetadata matter d root q = Some (snd e) \<and> fst e = name (snd e)) \<and>
         (\<forall>q \<in> set (findMarkdownFiles root ''''). \<forall>r.
            loadPromptMetadata matter d root q = Some r \<longrightarrow> name r \<in> fst ` set c') \<and>
         (\<forall>q \<in> set (findMarkdownFiles root ''''). \<forall>r.
            loadPromptMetadata matter d root q = Some r \<and>
            (\<forall>q' \<in> set (findMarkdownFiles root '''').
               flatten_slashes (strip_md q') = flatten_slashes (strip_md q) \<longrightarrow> q' = q) \<longrightarrow>
            getPrompt c' (name r) = Some r)))"
proof -
  let ?scan = "findMarkdownFiles root ''''"
  let ?c = "foldl (\<lambda>c' file. updateCacheForFile matter d root file c') [] (sort_key done_at ?scan)"
  have a: "fs_readFile d root (path_join d p) = None \<longrightarrow> loadPromptMetadata matter d root p = None"
    by (simp add: loadPromptMetadata_def)
  have b: "\<forall>content. fs_readFile d root (path_join d p) = Some content \<and> matter content = None \<longrightarrow>
        loadPromptMetadata matter d root p = None"
    by (simp add: loadPromptMetadata_def)
  have i: "initializeCache ok done_at matter d (Some root) c = Inr (root, ?c)"
    by (rule initializeCache_present)
  have dc: "distinct (map fst ?c)" by (rule bulk_distinct) simp
  have rest: "(\<forall>e \<in> set ?c. \<exists>q \<in> set ?scan.
            loadPromptMetadata matter d root q = Some (snd e) \<and> fst e = name (snd e)) \<and>
         (\<forall>q \<in> set ?scan. \<forall>r.
            loadPromptMetadata matter d root q = Some r \<longrightarrow> name r \<in> fst ` set ?c) \<and>
         (\<forall>q \<in> set ?scan. \<forall>r.
            loadPromptMetadata matter d root q = Some r \<and>
            (\<forall>q' \<in> set ?scan.
               flatten_slashes (strip_md q') = flatten_slashes (strip_md q) \<longrightarrow> q' = q) \<longrightarrow>
            getPrompt ?c (name r) = Some r)" if ok: "names_ok root"
  proof (intro conjI)
    show "\<forall>e \<in> set ?c. \<exists>q \<in> set ?scan.
            loadPromptMetadata matter d root q = Some (snd e) \<and> fst e = name (snd e)"
      by (rule bulk_invariant [OF sorted_scan_paths [OF ok]]) auto
    show "\<forall>q \<in> set ?scan. \<forall>r.
            loadPromptMetadata matter d root q = Some r \<longrightarrow> name r \<in> fst ` set ?c"
    proof (intro ballI allI impI)
      fix q r
      assume "q \<in> set ?scan" and l: "loadPromptMetadata matter d root q = Some r"
      then have "q \<in> set (sort_key done_at ?scan)" by simp
      then show "name r \<in> fst ` set ?c"
        using l by (rule bulk_keys_complete [OF sorted_scan_paths [OF ok]])
    qed
    show "\<forall>q \<in> set ?scan. \<forall>r.
            loadPromptMetadata matter d root q = Some r \<and>
            (\<forall>q' \<in> set ?scan.
               flatten_slashes (strip_md q') = flatten_slashes (strip_md q) \<longrightarrow> q' = q) \<longrightarrow>
            getPrompt ?c (name r) = Some r"
    proof (intro ballI allI impI, elim conjE)
      fix q r
      assume q: "q \<in> set ?scan" and l: "loadPromptMetadata matter d root q = Some r"
        and u: "\<forall>q' \<in> set ?scan.
               flatten_slashes (strip_md q') = flatten_slashes (strip_md q) \<longrightarrow> q' = q"
      have "\<forall>q' \<in> set (sort_key done_at ?scan). \<forall>r'.
              loadPromptMetadata matter d root q' = Some r' \<and> name r' = name r \<longrightarrow> r' = r"
      proof (intro ballI allI impI, elim conjE)
        fix q' r'
        assume q': "q' \<in> set (sort_key done_at ?scan)"
          and l': "loadPromptMetadata matter d root q' = Some r'" and n: "name r' = name r"
        have "flatten_slashes (strip_md q') = flatten_slashes (strip_md q)"
          using l l' n by (auto simp: loadPromptMetadata_Some)
        with u q' have "q' = q" by simp
        with l l' show "r' = r" by simp
      qed
      then have "map_of ?c (name r) = Some r"
        by (rule bulk_unique_record [OF sorted_scan_paths [OF ok]]) (use q l in auto)
      then show "getPrompt ?c (name r) = Some r" by (simp add: getPrompt_def)
    qed
  qed
  from a b i dc rest show ?thesis by blast
qed

text \<open>The theorem on the sample tree, where one file cannot be read and the parser
  rejects another.\<close>

theorem load_failures_are_absorbed_witness:
  "fs_readFile ''/p'' example_tree (path_join ''/p'' ''locked.md'') = None \<and>
   loadPromptMetadata example_matter ''/p'' example_tree ''locked.md'' = None \<and>
   fs_readFile ''/p'' example_tree (path_join ''/p'' ''broken.md'') = Some ''---'' \<and>
   example_matter ''---'' = None \<and>
   loadPromptMetadata example_matter ''/p'' example_tree ''broken.md'' = None \<and>
   names_ok example_tree \<and>
   findMarkdownFiles example_tree '''' =
     [''a/b.md'', ''a_b.md'', ''broken.md'', ''locked.md'', ''team/review.md''] \<and>
   initializeCache True (\<lambda>p. 0) example_matter ''/p'' (Some example_tree) [] =
     Inr (example_tree,
          [(''a_b'', \<lparr>name = ''a_b'', metadata = (), preview = ''flat...''\<rparr>),
           (''team_review'', \<lparr>name = ''team_review'', metadata = (), preview = ''Review the code...''\<rparr>)]) \<and>
   loadPromptMetadata example_matter ''/p'' example_tree ''team/review.md''
     = Some \<lparr>name = ''team_review'', metadata = (), preview = ''Review the code...''\<rparr> \<and>
   filter (\<lambda>q'. flatten_slashes (strip_md q') = flatten_slashes (strip_md ''team/review.md''))
     (findMarkdownFiles example_tree '''') = [''team/review.md''] \<and>
   getPrompt [(''a_b'', \<lparr>name = ''a_b'', metadata = (), preview = ''flat...''\<rparr>),
              (''team_review'', \<lparr>name = ''team_review'', metadata = (), preview = ''Review the code...''\<rparr>)]
     (name \<lparr>name = ''team_review'', metadata = (), preview = ''Review the code...''\<rparr>)
     = Some \<lparr>name = ''team_review'', metadata = (), preview = ''Review the code...''\<rparr>"
proof -
  note t1 = load_failures_are_absorbed [of "''/p''" example_tree "''locked.md''" example_matter
      True "\<lambda>p. 0" "[]"]
  note t2 = load_failures_are_absorbed [of "''/p''" example_tree "''broken.md''" example_matter
      True "\<lambda>p. 0" "[]"]
  have r1: "fs_readFile ''/p'' example_tree (path_join ''/p'' ''locked.md'') = None"
    by (simp add: eval_simps)
  have l1: "loadPromptMetadata example_matter ''/p'' example_tree ''locked.md'' = None"
    using t1 [THEN conjunct1] r1 by (rule mp)
  have r2: "fs_readFile ''/p'' example_tree (path_join ''/p'' ''broken.md'') = Some ''---''"
    by (simp add: eval_simps)
  have m2: "example_matter ''---'' = None" by (simp add: example_matter_def)
  have l2: "loadPromptMetadata example_matter ''/p'' example_tree ''broken.md'' = None"
    using t2 [THEN conjunct2, THEN conjunct1] r2 m2 by blast
  have l3: "loadPromptMetadata example_matter ''/p'' example_tree ''team/review.md''
     = Some \<lparr>name = ''team_review'', metadata = (), preview = ''Review the code...''\<rparr>"
    by (simp add: eval_simps)
  have u: "\<forall>q' \<in> set (findMarkdownFiles example_tree '''').
      flatten_slashes (strip_md q') = flatten_slashes (strip_md ''team/review.md'') \<longrightarrow>
      q' = ''team/review.md''"
    unfolding scan_example by (simp add: flatten_slashes_def strip_md_def endsWith_def)
  have s: "''team/review.md'' \<in> set (findMarkdownFiles example_tree '''')"
    unfolding scan_example by simp
  from t1 [THEN conjunct2, THEN conjunct2] obtain c' where
    i: "initializeCache True (\<lambda>p. 0) example_matter ''/p'' (Some example_tree) [] =
          Inr (example_tree, c')" and
    g: "names_ok example_tree \<longrightarrow>
         (\<forall>e \<in> set c'. \<exists>q \<in> set (findMarkdownFiles example_tree '''').
            loadPromptMetadata example_matter ''/p'' example_tree q = Some (snd e) \<and>
            fst e = name (snd e)) \<and>
         (\<forall>q \<in> set (findMarkdownFiles example_tree ''''). \<forall>r.
            loadPromptMetadata example_matter ''/p'' example_tree q = Some r \<longrightarrow>
            name r \<in> fst ` set c') \<and>
         (\<forall>q \<in> set (findMarkdownFiles example_tree ''''). \<forall>r.
            loadPromptMetadata example_matter ''/p'' example_tree q = Some r \<and>
            (\<forall>q' \<in> set (findMarkdownFiles example_tree '''').
               flatten_slashes (strip_md q') = flatten_slashes (strip_md q) \<longrightarrow> q' = q) \<longrightarrow>
            getPrompt c' (name r) = Some r)"
    by blast
  have c': "c' = [(''a_b'', \<lparr>name = ''a_b'', metadata = (), preview = ''flat...''\<rparr>),
           (''team_review'', \<lparr>name = ''team_review'', metadata = (), preview = ''Review the code...''\<rparr>)]"
    using i init_example [of True "[]"] by simp
  have "getPrompt c' (name \<lparr>name = ''team_review'', metadata = (), preview = ''Review the code...''\<rparr>)
     = Some \<lparr>name = ''team_review'', metadata = (), preview = ''Review the code...''\<rparr>"
    using g [rule_format, OF names_ok_example] s l3 u by blast
  then have gp: "getPrompt [(''a_b'', \<lparr>name = ''a_b'', metadata = (), preview = ''flat...''\<rparr>),
              (''team_review'', \<lparr>name = ''team_review'', metadata = (), preview = ''Review the code...''\<rparr>)]
     (name \<lparr>name = ''team_review'', metadata = (), preview = ''Review the code...''\<rparr>)
     = Some \<lparr>name = ''team_review'', metadata = (), preview = ''Review the code...''\<rparr>"
    unfolding c' .
  have fu: "filter (\<lambda>q'. flatten_slashes (strip_md q') = flatten_slashes (strip_md ''team/review.md''))
     (findMarkdownFiles example_tree '''') = [''team/review.md'']"
    unfolding scan_example by (simp add: flatten_slashes_def strip_md_def endsWith_def)
  show ?thesis
    by (intro conjI) (rule r1 l1 r2 m2 l2 names_ok_example scan_example
        init_example [of True "[]"] l3 fu gp)+
qed

text \<open>
  C3 as it is stated does not hold for every directory. The first sample tree holds
  \<^verbatim>\<open>a/b.md\<close> and \<^verbatim>\<open>a_b.md\<close>, which flatten to one name. A first run whose reads complete
  in the order they were started leaves under \<^verbatim>\<open>a_b\<close> the record of \<^verbatim>\<open>a_b.md\<close>; a second
  run over the same tree in which the read of \<^verbatim>\<open>a/b.md\<close> completes last leaves the record
  of \<^verbatim>\<open>a/b.md\<close> there.
\<close>

theorem bulk_load_idempotent_counterexample:
  "initializeCache True (\<lambda>p. 0) example_matter ''/p'' (Some example_tree) [] =
     Inr (example_tree,
          [(''a_b'', \<lparr>name = ''a_b'', metadata = (), preview = ''flat...''\<rparr>),
           (''team_review'', \<lparr>name = ''team_review'', metadata = (),
                               preview = ''Review the code...''\<rparr>)]) \<and>
   initializeCache True (\<lambda>p. if p = ''a/b.md'' then 1 else 0) example_matter ''/p''
       (Some example_tree)
       [(''a_b'', \<lparr>name = ''a_b'', metadata = (), preview = ''flat...''\<rparr>),
        (''team_review'', \<lparr>name = ''team_review'', metadata = (),
                            preview = ''Review the code...''\<rparr>)] =
     Inr (example_tree,
          [(''a_b'', \<lparr>name = ''a_b'', metadata = (), preview = ''Hi you...''\<rparr>),
           (''team_review'', \<lparr>name = ''team_review'', metadata = (),
                               preview = ''Review the code...''\<rparr>)]) \<and>
   getPrompt [(''a_b'', \<lparr>name = ''a_b'', metadata = (), preview = ''flat...''\<rparr>),
              (''team_review'', \<lparr>name = ''team_review'', metadata = (),
                                  preview = ''Review the code...''\<rparr>)] ''a_b''
     \<noteq>
   getPrompt [(''a_b'', \<lparr>name = ''a_b'', metadata = (), preview = ''Hi you...''\<rparr>),
              (''team_review'', \<lparr>name = ''team_review'', metadata = (),
                                  preview = ''Review the code...''\<rparr>)] ''a_b''"
  unfolding initializeCache_present scan_example
  by (simp add: eval_simps)

text \<open>
  C3, amended. The moments \<open>t1\<close> and \<open>t2\<close> at which the reads of the first and of the
  second run complete are arbitrary. After a run that returned, a second run with the same
  completion order returns the same directory and cache, and a second run with any
  completion order returns what a single run with that order returns from the start,
  whatever the cache held: nothing of the earlier contents is merged. Under every name the
  cache of a run holds the record of the file of that name whose read completed last among
  those that loaded. So the mapping from names to records is the same for every completion
  order when any two scanned files that load and flatten to one name give the same record.
  A run that throws (the directory is missing and cannot be created) throws again and
  leaves the cache alone.
\<close>

theorem bulk_load_idempotent:
  "(\<forall>root1 c1. initializeCache ok t1 matter d fs c = Inr (root1, c1) \<longrightarrow>
      initializeCache ok t1 matter d (Some root1) c1 = Inr (root1, c1) \<and>
      initializeCache ok t2 matter d (Some root1) c1 = initializeCache ok t2 matter d fs c0 \<and>
      (names_ok root1 \<longrightarrow>
         (\<forall>k. getPrompt c1 k =
            (case List.find (\<lambda>p. loadPromptMetadata matter d root1 p \<noteq> None \<and>
                                  flatten_slashes (strip_md p) = k)
                    (rev (sort_key t1 (findMarkdownFiles root1 ''''))) of
               None \<Rightarrow> None
             | Some p \<Rightarrow> loadPromptMetadata matter d root1 p)) \<and>
         ((\<forall>p \<in> set (findMarkdownFiles root1 ''''). \<forall>q \<in> set (findMarkdownFiles root1 ''''). \<forall>r r'.
             loadPromptMetadata matter d root1 p = Some r \<and>
             loadPromptMetadata matter d root1 q = Some r' \<and>
             flatten_slashes (strip_md p) = flatten_slashes (strip_md q) \<longrightarrow> r = r') \<longrightarrow>
          (\<forall>c2. initializeCache ok t2 matter d (Some root1) c1 = Inr (root1, c2) \<longrightarrow>
             map_of c2 = map_of c1)))) \<and>
   (\<forall>e. initializeCache ok t1 matter d fs c = Inl e \<longrightarrow>
      initializeCache ok t2 matter d fs c = Inl e)"
proof (intro conjI allI impI)
  fix root1 c1
  assume i: "initializeCache ok t1 matter d fs c = Inr (root1, c1)"
  have c1: "c1 = foldl (\<lambda>c' file. updateCacheForFile matter d root1 file c') []
                   (sort_key t1 (findMarkdownFiles root1 ''''))"
    using i by (cases fs) (auto simp: initializeCache_present initializeCache_absent split: if_splits)
  show "initializeCache ok t1 matter d (Some root1) c1 = Inr (root1, c1)"
    by (simp add: initializeCache_present c1)
  show "initializeCache ok t2 matter d (Some root1) c1 = initializeCache ok t2 matter d fs c0"
    using i by (cases fs) (auto simp: initializeCache_present initializeCache_absent split: if_splits)
  assume ok: "names_ok root1"
  show "getPrompt c1 k =
            (case List.find (\<lambda>p. loadPromptMetadata matter d root1 p \<noteq> None \<and>
                                  flatten_slashes (strip_md p) = k)
                    (rev (sort_key t1 (findMarkdownFiles root1 ''''))) of
               None \<Rightarrow> None
             | Some p \<Rightarrow> loadPromptMetadata matter d root1 p)" for k
    unfolding c1 getPrompt_def by (rule bulk_last_wins [OF sorted_scan_paths [OF ok]])
  fix c2
  assume h: "\<forall>p \<in> set (findMarkdownFiles root1 ''''). \<forall>q \<in> set (findMarkdownFiles root1 ''''). \<forall>r r'.
             loadPromptMetadata matter d root1 p = Some r \<and>
             loadPromptMetadata matter d root1 q = Some r' \<and>
             flatten_slashes (strip_md p) = flatten_slashes (strip_md q) \<longrightarrow> r = r'"
    and i2: "initializeCache ok t2 matter d (Some root1) c1 = Inr (root1, c2)"
  have c2: "c2 = foldl (\<lambda>c' file. updateCacheForFile matter d root1 file c') []
                   (sort_key t2 (findMarkdownFiles root1 ''''))"
    using i2 by (simp add: initializeCache_present)
  show "map_of c2 = map_of c1"
  proof
    fix k
    show "map_of c2 k = map_of c1 k"
      unfolding c1 c2
      by (rule option_eqI) (simp add: bulk_contents_equal_records [OF ok h])
  qed
next
  fix e
  assume "initializeCache ok t1 matter d fs c = Inl e"
  then show "initializeCache ok t2 matter d fs c = Inl e"
    by (cases fs) (auto simp: initializeCache_present initializeCache_absent split: if_splits)
qed

text \<open>The theorem on the second sample tree with two completion orders, and on a missing
  directory that cannot be created.\<close>

theorem bulk_load_idempotent_witness:
  "initializeCache True (\<lambda>p. 0) example_matter ''/p'' (Some plain_tree) [] =
     Inr (plain_tree,
          [(''code-review'', \<lparr>name = ''code-review'', metadata = (),
                               preview = ''You are an experienced engineer...''\<rparr>),
           (''team_review'', \<lparr>name = ''team_review'', metadata = (),
                               preview = ''Review the code...''\<rparr>)]) \<and>
   initializeCache True (\<lambda>p. 0) example_matter ''/p'' (Some plain_tree)
       [(''code-review'', \<lparr>name = ''code-review'', metadata = (),
                            preview = ''You are an experienced engineer...''\<rparr>),
        (''team_review'', \<lparr>name = ''team_review'', metadata = (),
                            preview = ''Review the code...''\<rparr>)] =
     Inr (plain_tree,
          [(''code-review'', \<lparr>name = ''code-review'', metadata = (),
                               preview = ''You are an experienced engineer...''\<rparr>),
           (''team_review'', \<lparr>name = ''team_review'', metadata = (),
                               preview = ''Review the code...''\<rparr>)]) \<and>
   names_ok plain_tree \<and>
   distinct (map (\<lambda>p. flatten_slashes (strip_md p)) (findMarkdownFiles plain_tree '''')) \<and>
   getPrompt [(''code-review'', \<lparr>name = ''code-review'', metadata = (),
                                  preview = ''You are an experienced engineer...''\<rparr>),
              (''team_review'', \<lparr>name = ''team_review'', metadata = (),
                                  preview = ''Review the code...''\<rparr>)] ''team_review'' =
     loadPromptMetadata example_matter ''/p'' plain_tree ''team/review.md'' \<and>
   initializeCache True (\<lambda>p. if p = ''team/review.md'' then 0 else 1) example_matter ''/p''
       (Some plain_tree)
       [(''code-review'', \<lparr>name = ''code-review'', metadata = (),
                            preview = ''You are an experienced engineer...''\<rparr>),
        (''team_review'', \<lparr>name = ''team_review'', metadata = (),
                            preview = ''Review the code...''\<rparr>)] =
     Inr (plain_tree,
          [(''team_review'', \<lparr>name = ''team_review'', metadata = (),
                               preview = ''Review the code...''\<rparr>),
           (''code-review'', \<lparr>name = ''code-review'', metadata = (),
                               preview = ''You are an experienced engineer...''\<rparr>)]) \<and>
   map_of [(''team_review'', \<lparr>name = ''team_review'', metadata = (),
                               preview = ''Review the code...''\<rparr>),
           (''code-review'', \<lparr>name = ''code-review'', metadata = (),
                               preview = ''You are an experienced engineer...''\<rparr>)] =
   map_of [(''code-review'', \<lparr>name = ''code-review'', metadata = (),
                               preview = ''You are an experienced engineer...''\<rparr>),
           (''team_review'', \<lparr>name = ''team_review'', metadata = (),
                               preview = ''Review the code...''\<rparr>)] \<and>
   initializeCache False (\<lambda>p. 0) example_matter ''/p'' None ([] :: unit cache) = Inl SystemError \<and>
   initializeCache False (\<lambda>p. if p = ''team/review.md'' then 0 else 1) example_matter ''/p'' None
     ([] :: unit cache) = Inl SystemError"
proof -
  let ?C1 = "[(''code-review'', \<lparr>name = ''code-review'', metadata = (),
                               preview = ''You are an experienced engineer...''\<rparr>),
           (''team_review'', \<lparr>name = ''team_review'', metadata = (),
                               preview = ''Review the code...''\<rparr>)]"
  let ?t2 = "\<lambda>p. if p = ''team/review.md'' then 0 else (1::nat)"
  note t = bulk_load_idempotent [of True "\<lambda>p. 0" example_matter "''/p''" "Some plain_tree" "[]"
      ?t2 "[]", THEN conjunct1, rule_format, OF init_plain_started_order [of True "[]"]]
  note n = t [THEN conjunct2, THEN conjunct2, THEN mp, OF names_ok_plain]
  have a: "initializeCache True (\<lambda>p. 0) example_matter ''/p'' (Some plain_tree) ?C1 =
     Inr (plain_tree, ?C1)"
    by (rule t [THEN conjunct1])
  have inj: "\<forall>p \<in> set (findMarkdownFiles plain_tree ''''). \<forall>q \<in> set (findMarkdownFiles plain_tree '''').
      flatten_slashes (strip_md p) = flatten_slashes (strip_md q) \<longrightarrow> p = q"
    unfolding scan_plain by (simp add: flatten_slashes_def strip_md_def endsWith_def)
  have h: "\<forall>p \<in> set (findMarkdownFiles plain_tree ''''). \<forall>q \<in> set (findMarkdownFiles plain_tree ''''). \<forall>r r'.
             loadPromptMetadata example_matter ''/p'' plain_tree p = Some r \<and>
             loadPromptMetadata example_matter ''/p'' plain_tree q = Some r' \<and>
             flatten_slashes (strip_md p) = flatten_slashes (strip_md q) \<longrightarrow> r = r'"
  proof (intro ballI allI impI, elim conjE)
    fix p q r r'
    assume "p \<in> set (findMarkdownFiles plain_tree '''')" "q \<in> set (findMarkdownFiles plain_tree '''')"
      and l: "loadPromptMetadata example_matter ''/p'' plain_tree p = Some r"
      and l': "loadPromptMetadata example_matter ''/p'' plain_tree q = Some r'"
      and "flatten_slashes (strip_md p) = flatten_slashes (strip_md q)"
    with inj have "p = q" by blast
    with l l' show "r = r'" by simp
  qed
  have rv: "List.find (\<lambda>p. loadPromptMetadata example_matter ''/p'' plain_tree p \<noteq> None \<and>
                          flatten_slashes (strip_md p) = ''team_review'')
              (rev (sort_key (\<lambda>p. 0 :: nat) (findMarkdownFiles plain_tree '''')))
            = Some ''team/review.md''"
    unfolding scan_plain
    by (simp add: loadPromptMetadata_def fs_readFile_def resolve_path_def path_join_def
        startsWith_def endsWith_def strip_md_def flatten_slashes_def plain_tree_def
        example_matter_def)
  have g: "getPrompt ?C1 ''team_review'' =
     loadPromptMetadata example_matter ''/p'' plain_tree ''team/review.md''"
    using n [THEN conjunct1, rule_format, of "''team_review''"] unfolding rv by simp
  have m: "map_of [(''team_review'', \<lparr>name = ''team_review'', metadata = (),
                               preview = ''Review the code...''\<rparr>),
           (''code-review'', \<lparr>name = ''code-review'', metadata = (),
                               preview = ''You are an experienced engineer...''\<rparr>)] = map_of ?C1"
    by (rule n [THEN conjunct2, THEN mp, OF h, rule_format,
          OF init_plain_other_order [of True ?C1]])
  have f1: "initializeCache False (\<lambda>p. 0) example_matter ''/p'' None ([] :: unit cache)
      = Inl SystemError"
    by (simp add: initializeCache_absent)
  have f2: "initializeCache False ?t2 example_matter ''/p'' None ([] :: unit cache)
      = Inl SystemError"
    by (rule bulk_load_idempotent [of False "\<lambda>p. 0" example_matter "''/p''" None "[]" ?t2 "[]",
          THEN conjunct2, rule_format, OF f1])
  have dn: "distinct (map (\<lambda>p. flatten_slashes (strip_md p)) (findMarkdownFiles plain_tree ''''))"
    unfolding scan_plain by (simp add: flatten_slashes_def strip_md_def endsWith_def)
  show ?thesis
    by (intro conjI) (rule init_plain_started_order [of True "[]"] a names_ok_plain dn g
        init_plain_other_order [of True ?C1] m f1 f2)+
qed

section \<open>Properties of the resolver\<close>

text \<open>
  C1 as it is stated does not hold. In the sample tree the file \<^verbatim>\<open>a/b.md\<close> is scanned and
  readable, yet \<^verbatim>\<open>findPromptFile\<close> of src/unnamed/part_000 resolves its name \<^verbatim>\<open>a/b\<close> to the
  other file \<^verbatim>\<open>a_b.md\<close>: the direct path of the sanitized name is tried first. And
  \<^verbatim>\<open>findPromptFile\<close> of src/src/fileOperations.ts, which compares exactly and nothing else,
  does not resolve \<^verbatim>\<open>TEAM/REVIEW\<close> although its sanitized form is that of
  \<^verbatim>\<open>team/review.md\<close>.
\<close>

theorem resolver_exact_or_sanitized_counterexample:
  "''a/b.md'' \<in> set (findMarkdownFiles example_tree '''') \<and>
   fs_readFile ''/p'' example_tree (path_join ''/p'' ''a/b.md'') \<noteq> None \<and>
   findPromptFile ''/p'' example_tree (strip_md ''a/b.md'') = Some ''/p/a_b.md'' \<and>
   findPromptFile ''/p'' example_tree (strip_md ''a/b.md'') \<noteq> Some (path_join ''/p'' ''a/b.md'') \<and>
   ''team/review.md'' \<in> set (findMarkdownFiles example_tree '''') \<and>
   sanitizeFileName ''TEAM/REVIEW'' = sanitizeFileName (strip_md ''team/review.md'') \<and>
   findPromptFile_exact ''/p'' example_tree ''TEAM/REVIEW'' = None"
  unfolding scan_example by (simp add: resolve_simps)

text \<open>
  C1, amended. \<^verbatim>\<open>findPromptFile\<close> of src/unnamed/part_000 returns the direct path
  \<^verbatim>\<open>promptsDir/<sanitized name>.md\<close> whenever something exists there. Otherwise it returns
  the first file in the order of the scan whose path without the extension is the name or
  has the sanitized form of the name, and nothing when the scan has no such file. So the
  file at a scanned path is what its exact name, or a name of the same sanitized form,
  resolves to when nothing exists at the direct path and no scanned file before it matches.
  Resolution fails iff nothing exists at the direct path and no scanned file matches the
  name exactly or in sanitized form.
  \<^verbatim>\<open>findPromptFile\<close> of src/src/fileOperations.ts returns the first scanned file whose path
  without the extension is the name: it resolves the stripped path of every scanned file
  to that file, and fails iff no scanned file has the name as its stripped path.
  The scanned files are the files that \<open>visible_file\<close> describes: those with the
  extension below the root that no name starting with a dot and no unlistable directory
  hides.
\<close>

theorem resolver_first_match:
  "(fs_access d root (path_join d (sanitizeFileName nm @ ''.md'')) \<longrightarrow>
      findPromptFile d root nm = Some (path_join d (sanitizeFileName nm @ ''.md''))) \<and>
   (\<not> fs_access d root (path_join d (sanitizeFileName nm @ ''.md'')) \<longrightarrow>
      findPromptFile d root nm =
        map_option (path_join d)
          (List.find (\<lambda>q. strip_md q = nm \<or> sanitizeFileName (strip_md q) = sanitizeFileName nm)
             (findMarkdownFiles root ''''))) \<and>
   (\<forall>ys p zs.
      \<not> fs_access d root (path_join d (sanitizeFileName nm @ ''.md'')) \<and>
      findMarkdownFiles root '''' = ys @ p # zs \<and>
      (strip_md p = nm \<or> sanitizeFileName (strip_md p) = sanitizeFileName nm) \<and>
      (\<forall>y \<in> set ys. strip_md y \<noteq> nm \<and> sanitizeFileName (strip_md y) \<noteq> sanitizeFileName nm) \<longrightarrow>
      findPromptFile d root nm = Some (path_join d p)) \<and>
   (findPromptFile d root nm = None \<longleftrightarrow>
      \<not> fs_access d root (path_join d (sanitizeFileName nm @ ''.md'')) \<and>
      (\<forall>q \<in> set (findMarkdownFiles root '''').
         strip_md q \<noteq> nm \<and> sanitizeFileName (strip_md q) \<noteq> sanitizeFileName nm)) \<and>
   findPromptFile_exact d root nm =
     map_option (path_join d) (List.find (\<lambda>q. strip_md q = nm) (findMarkdownFiles root '''')) \<and>
   (\<forall>p. p \<in> set (findMarkdownFiles root '''') \<longrightarrow>
        findPromptFile_exact d root (strip_md p) = Some (path_join d p)) \<and>
   (findPromptFile_exact d root nm = None \<longleftrightarrow>
      (\<forall>q \<in> set (findMarkdownFiles root ''''). strip_md q \<noteq> nm)) \<and>
   (names_ok root \<longrightarrow>
      (\<forall>p. p \<in> set (findMarkdownFiles root '''') \<longleftrightarrow>
           (\<exists>cs. p = join_with CHR ''/'' cs \<and> visible_file root cs)))"
proof (intro conjI allI impI)
  let ?direct = "path_join d (sanitizeFileName nm @ ''.md'')"
  let ?scan = "findMarkdownFiles root ''''"
  let ?P = "\<lambda>q. strip_md q = nm \<or> sanitizeFileName (strip_md q) = sanitizeFileName nm"
  show "findPromptFile d root nm = Some ?direct" if "fs_access d root ?direct"
    using that by (simp add: findPromptFile_def)
  show w: "findPromptFile d root nm = map_option (path_join d) (List.find ?P ?scan)"
    if "\<not> fs_access d root ?direct"
    using that by (simp add: findPromptFile_def searchDir_find)
  show "findPromptFile d root nm = Some (path_join d p)"
    if h: "\<not> fs_access d root ?direct \<and> ?scan = ys @ p # zs \<and> ?P p \<and>
           (\<forall>y \<in> set ys. strip_md y \<noteq> nm \<and> sanitizeFileName (strip_md y) \<noteq> sanitizeFileName nm)"
    for ys p zs
  proof -
    from h have "\<forall>y \<in> set ys. \<not> ?P y" by simp
    moreover from h have "?P p" by simp
    ultimately have "List.find ?P (ys @ p # zs) = Some p" by (rule find_first)
    with h show ?thesis by (simp add: w)
  qed
  show "findPromptFile d root nm = None \<longleftrightarrow>
      \<not> fs_access d root ?direct \<and>
      (\<forall>q \<in> set ?scan. strip_md q \<noteq> nm \<and> sanitizeFileName (strip_md q) \<noteq> sanitizeFileName nm)"
  proof (cases "fs_access d root ?direct")
    case True
    then show ?thesis by (simp add: findPromptFile_def)
  next
    case False
    then show ?thesis by (auto simp: w find_None_iff)
  qed
  show "findPromptFile_exact d root nm =
     map_option (path_join d) (List.find (\<lambda>q. strip_md q = nm) ?scan)"
    by (rule findPromptFile_exact_walk)
  show "findPromptFile_exact d root (strip_md p) = Some (path_join d p)"
    if h: "p \<in> set ?scan" for p
  proof -
    have md: "\<forall>q \<in> set ?scan. endsWith q ''.md''"
      using scan_md(1) [of root "''''"] by (simp add: list_all_iff)
    have "List.find (\<lambda>q. strip_md q = strip_md p) ?scan = Some p"
    proof (rule find_unique [OF h])
      show "strip_md p = strip_md p" ..
      show "\<forall>q \<in> set ?scan. strip_md q = strip_md p \<longrightarrow> q = p"
        using md h by (auto intro: strip_md_inj)
    qed
    then show ?thesis by (simp add: findPromptFile_exact_walk)
  qed
  show "findPromptFile_exact d root nm = None \<longleftrightarrow> (\<forall>q \<in> set ?scan. strip_md q \<noteq> nm)"
    by (auto simp: findPromptFile_exact_walk find_None_iff)
  show "p \<in> set ?scan \<longleftrightarrow> (\<exists>cs. p = join_with CHR ''/'' cs \<and> visible_file root cs)"
    if "names_ok root" for p
    using that by (rule scan_characterisation)
qed

text \<open>The theorem on the first sample tree for the names \<^verbatim>\<open>a/b\<close>, \<^verbatim>\<open>TEAM/REVIEW\<close> and
  \<^verbatim>\<open>team/missing\<close>, and on the third for the name \<^verbatim>\<open>x y\<close>, which resolves to the file
  \<^verbatim>\<open>X_Y.md\<close> that the scan lists before \<^verbatim>\<open>x y.md\<close>.\<close>

theorem resolver_first_match_witness:
  "fs_access ''/p'' example_tree (path_join ''/p'' (sanitizeFileName ''a/b'' @ ''.md'')) \<and>
   findPromptFile ''/p'' example_tree ''a/b'' =
     Some (path_join ''/p'' (sanitizeFileName ''a/b'' @ ''.md'')) \<and>
   \<not> fs_access ''/p'' shadow_tree (path_join ''/p'' (sanitizeFileName ''x y'' @ ''.md'')) \<and>
   findMarkdownFiles shadow_tree '''' = [] @ ''X_Y.md'' # [''x y.md''] \<and>
   sanitizeFileName (strip_md ''X_Y.md'') = sanitizeFileName ''x y'' \<and>
   findPromptFile ''/p'' shadow_tree ''x y'' = Some (path_join ''/p'' ''X_Y.md'') \<and>
   \<not> fs_access ''/p'' example_tree (path_join ''/p'' (sanitizeFileName ''TEAM/REVIEW'' @ ''.md'')) \<and>
   findPromptFile ''/p'' example_tree ''TEAM/REVIEW'' = Some (path_join ''/p'' ''team/review.md'') \<and>
   findPromptFile ''/p'' example_tree ''team/missing'' = None \<and>
   names_ok example_tree \<and> visible_file example_tree [''team'', ''review.md''] \<and>
   ''team/review.md'' = join_with CHR ''/'' [''team'', ''review.md''] \<and>
   ''team/review.md'' \<in> set (findMarkdownFiles example_tree '''') \<and>
   findPromptFile_exact ''/p'' example_tree (strip_md ''team/review.md'') =
     Some (path_join ''/p'' ''team/review.md'') \<and>
   findPromptFile_exact ''/p'' example_tree ''team/missing'' = None"
proof -
  note t1 = resolver_first_match [of "''/p''" example_tree "''a/b''"]
  note t2 = resolver_first_match [of "''/p''" example_tree "''TEAM/REVIEW''"]
  note t3 = resolver_first_match [of "''/p''" example_tree "''team/missing''"]
  note t4 = resolver_first_match [of "''/p''" shadow_tree "''x y''"]
  have a1: "fs_access ''/p'' example_tree (path_join ''/p'' (sanitizeFileName ''a/b'' @ ''.md''))"
    by (simp add: resolve_simps)
  have f1: "findPromptFile ''/p'' example_tree ''a/b'' =
     Some (path_join ''/p'' (sanitizeFileName ''a/b'' @ ''.md''))"
    using t1 [THEN conjunct1] a1 by (rule mp)
  have a4: "\<not> fs_access ''/p'' shadow_tree (path_join ''/p'' (sanitizeFileName ''x y'' @ ''.md''))"
    by (simp add: resolve_simps shadow_tree_def)
  have s4: "findMarkdownFiles shadow_tree '''' = [] @ ''X_Y.md'' # [''x y.md'']"
    by (simp add: scan_shadow)
  have m4: "sanitizeFileName (strip_md ''X_Y.md'') = sanitizeFileName ''x y''"
    by (simp add: resolve_simps)
  have d4: "strip_md ''X_Y.md'' = ''x y'' \<or>
            sanitizeFileName (strip_md ''X_Y.md'') = sanitizeFileName ''x y''"
    using m4 by (rule disjI2)
  have e4: "\<forall>y \<in> set ([] :: string list).
      strip_md y \<noteq> ''x y'' \<and> sanitizeFileName (strip_md y) \<noteq> sanitizeFileName ''x y''"
    by simp
  have f4: "findPromptFile ''/p'' shadow_tree ''x y'' = Some (path_join ''/p'' ''X_Y.md'')"
    by (rule t4 [THEN conjunct2, THEN conjunct2, THEN conjunct1, rule_format,
          OF conjI [OF a4 conjI [OF s4 conjI [OF d4 e4]]]])
  have a2: "\<not> fs_access ''/p'' example_tree
               (path_join ''/p'' (sanitizeFileName ''TEAM/REVIEW'' @ ''.md''))"
    by (simp add: resolve_simps)
  have w2: "map_option (path_join ''/p'')
      (List.find (\<lambda>q. strip_md q = ''TEAM/REVIEW'' \<or>
                      sanitizeFileName (strip_md q) = sanitizeFileName ''TEAM/REVIEW'')
         (findMarkdownFiles example_tree '''')) = Some (path_join ''/p'' ''team/review.md'')"
    unfolding scan_example by (simp add: resolve_simps)
  have f2: "findPromptFile ''/p'' example_tree ''TEAM/REVIEW'' =
      Some (path_join ''/p'' ''team/review.md'')"
    using t2 [THEN conjunct2, THEN conjunct1, THEN mp, OF a2] w2 by (rule trans)
  have n3: "\<not> fs_access ''/p'' example_tree
               (path_join ''/p'' (sanitizeFileName ''team/missing'' @ ''.md'')) \<and>
      (\<forall>q \<in> set (findMarkdownFiles example_tree '''').
         strip_md q \<noteq> ''team/missing'' \<and>
         sanitizeFileName (strip_md q) \<noteq> sanitizeFileName ''team/missing'')"
    unfolding scan_example by (simp add: resolve_simps)
  have f3: "findPromptFile ''/p'' example_tree ''team/missing'' = None"
    using t3 [THEN conjunct2, THEN conjunct2, THEN conjunct2, THEN conjunct1] n3 by (rule iffD2)
  have v: "visible_file example_tree [''team'', ''review.md'']"
    by (simp add: example_tree_def startsWith_def endsWith_def)
  have j: "''team/review.md'' = join_with CHR ''/'' [''team'', ''review.md'']" by simp
  have m: "''team/review.md'' \<in> set (findMarkdownFiles example_tree '''')"
    using t1 [THEN conjunct2, THEN conjunct2, THEN conjunct2, THEN conjunct2, THEN conjunct2,
        THEN conjunct2, THEN conjunct2, rule_format, OF names_ok_example] v j by blast
  have f5: "findPromptFile_exact ''/p'' example_tree (strip_md ''team/review.md'') =
     Some (path_join ''/p'' ''team/review.md'')"
    using t2 [THEN conjunct2, THEN conjunct2, THEN conjunct2, THEN conjunct2, THEN conjunct2,
        THEN conjunct1] m
    by blast
  have n6: "\<forall>q \<in> set (findMarkdownFiles example_tree ''''). strip_md q \<noteq> ''team/missing''"
    unfolding scan_example by (simp add: resolve_simps)
  have f6: "findPromptFile_exact ''/p'' example_tree ''team/missing'' = None"
    using t3 [THEN conjunct2, THEN conjunct2, THEN conjunct2, THEN conjunct2, THEN conjunct2,
        THEN conjunct2, THEN conjunct1] n6
    by (rule iffD2)
  show ?thesis
    by (intro conjI) (rule a1 f1 a4 s4 m4 f4 a2 f2 f3 names_ok_example v j m f5 f6)+
qed

text \<open>
  C9 as it is stated does not hold. In the sample tree the name \<^verbatim>\<open>locked\<close> is resolved to
  a file, the read of that file is rejected, and \<^verbatim>\<open>readPrompt\<close> throws the error that it
  throws for the same name in an empty directory, where nothing is resolved.
\<close>

theorem readPrompt_not_found_counterexample:
  "findPromptFile ''/p'' example_tree ''locked'' = Some ''/p/locked.md'' \<and>
   readPrompt ''/p'' example_tree ''locked'' =
     Inl (Error (''Prompt '' @ [CHR 0x22] @ ''locked'' @ [CHR 0x22] @ '' not found'')) \<and>
   findPromptFile ''/p'' (Dir True []) ''locked'' = None \<and>
   readPrompt ''/p'' (Dir True []) ''locked'' = readPrompt ''/p'' example_tree ''locked'' \<and>
   findPromptFile_exact ''/p'' example_tree ''locked'' = Some ''/p/locked.md'' \<and>
   readPrompt_exact ''/p'' example_tree ''locked'' =
     Inl (Error (''Prompt '' @ [CHR 0x22] @ ''locked'' @ [CHR 0x22] @ '' not found'')) \<and>
   findPromptFile_exact ''/p'' (Dir True []) ''locked'' = None \<and>
   readPrompt_exact ''/p'' (Dir True []) ''locked'' = readPrompt_exact ''/p'' example_tree ''locked''"
  by (simp add: resolve_simps)

text \<open>
  C9, amended. \<^verbatim>\<open>readPrompt\<close> throws no error but \<^verbatim>\<open>Prompt "<name>" not found\<close>, and
  it throws iff the resolver locates no file or the read of the located file is
  rejected; otherwise it returns the content of the located file. This holds for the
  \<^verbatim>\<open>readPrompt\<close> of both source files.
\<close>

theorem readPrompt_not_found:
  "(\<forall>e. readPrompt d root nm = Inl e \<longrightarrow> e = not_found nm) \<and>
   ((\<exists>e. readPrompt d root nm = Inl e) \<longleftrightarrow>
      findPromptFile d root nm = None \<or>
      (\<exists>f. findPromptFile d root nm = Some f \<and> fs_readFile d root f = None)) \<and>
   (\<forall>content. readPrompt d root nm = Inr content \<longleftrightarrow>
      (\<exists>f. findPromptFile d root nm = Some f \<and> fs_readFile d root f = Some content)) \<and>
   (\<forall>e. readPrompt_exact d root nm = Inl e \<longrightarrow> e = not_found nm) \<and>
   ((\<exists>e. readPrompt_exact d root nm = Inl e) \<longleftrightarrow>
      findPromptFile_exact d root nm = None \<or>
      (\<exists>f. findPromptFile_exact d root nm = Some f \<and> fs_readFile d root f = None)) \<and>
   (\<forall>content. readPrompt_exact d root nm = Inr content \<longleftrightarrow>
      (\<exists>f. findPromptFile_exact d root nm = Some f \<and> fs_readFile d root f = Some content))"
  by (auto simp: readPrompt_def readPrompt_exact_def split: option.splits)

text \<open>The theorem on the sample tree: a file that cannot be read, a name that is not
  resolved, and a file that is read.\<close>

theorem readPrompt_not_found_witness:
  "readPrompt ''/p'' example_tree ''locked'' =
     Inl (Error (''Prompt '' @ [CHR 0x22] @ ''locked'' @ [CHR 0x22] @ '' not found'')) \<and>
   Error (''Prompt '' @ [CHR 0x22] @ ''locked'' @ [CHR 0x22] @ '' not found'') = not_found ''locked'' \<and>
   findPromptFile ''/p'' example_tree ''locked'' = Some ''/p/locked.md'' \<and>
   fs_readFile ''/p'' example_tree ''/p/locked.md'' = None \<and>
   findPromptFile ''/p'' example_tree ''team/missing'' = None \<and>
   readPrompt ''/p'' example_tree ''team/missing'' = Inl (not_found ''team/missing'') \<and>
   findPromptFile ''/p'' example_tree ''team/review'' = Some ''/p/team/review.md'' \<and>
   fs_readFile ''/p'' example_tree ''/p/team/review.md'' = Some ''Review the code'' \<and>
   readPrompt ''/p'' example_tree ''team/review'' = Inr ''Review the code'' \<and>
   readPrompt_exact ''/p'' example_tree ''locked'' = Inl (not_found ''locked'') \<and>
   readPrompt_exact ''/p'' example_tree ''team/review'' = Inr ''Review the code''"
proof -
  note t1 = readPrompt_not_found [of "''/p''" example_tree "''locked''"]
  note t2 = readPrompt_not_found [of "''/p''" example_tree "''team/missing''"]
  note t3 = readPrompt_not_found [of "''/p''" example_tree "''team/review''"]
  have r1: "readPrompt ''/p'' example_tree ''locked'' =
     Inl (Error (''Prompt '' @ [CHR 0x22] @ ''locked'' @ [CHR 0x22] @ '' not found''))"
    by (simp add: resolve_simps)
  have e1: "Error (''Prompt '' @ [CHR 0x22] @ ''locked'' @ [CHR 0x22] @ '' not found'')
      = not_found ''locked''"
    using t1 [THEN conjunct1] r1 by blast
  have f1: "findPromptFile ''/p'' example_tree ''locked'' = Some ''/p/locked.md''"
    by (simp add: resolve_simps)
  have d1: "fs_readFile ''/p'' example_tree ''/p/locked.md'' = None"
    by (simp add: resolve_simps)
  have f2: "findPromptFile ''/p'' example_tree ''team/missing'' = None"
    by (simp add: resolve_simps)
  have "\<exists>e. readPrompt ''/p'' example_tree ''team/missing'' = Inl e"
    using t2 [THEN conjunct2, THEN conjunct1] f2 by blast
  then have r2: "readPrompt ''/p'' example_tree ''team/missing'' = Inl (not_found ''team/missing'')"
    using t2 [THEN conjunct1] by blast
  have f3: "findPromptFile ''/p'' example_tree ''team/review'' = Some ''/p/team/review.md''"
    by (simp add: resolve_simps)
  have d3: "fs_readFile ''/p'' example_tree ''/p/team/review.md'' = Some ''Review the code''"
    by (simp add: resolve_simps)
  have r3: "readPrompt ''/p'' example_tree ''team/review'' = Inr ''Review the code''"
    using t3 [THEN conjunct2, THEN conjunct2, THEN conjunct1] f3 d3 by blast
  have f4: "findPromptFile_exact ''/p'' example_tree ''locked'' = Some ''/p/locked.md''"
    by (simp add: resolve_simps)
  have "\<exists>e. readPrompt_exact ''/p'' example_tree ''locked'' = Inl e"
    using t1 [THEN conjunct2, THEN conjunct2, THEN conjunct2, THEN conjunct2, THEN conjunct1] f4 d1
    by blast
  then have r4: "readPrompt_exact ''/p'' example_tree ''locked'' = Inl (not_found ''locked'')"
    using t1 [THEN conjunct2, THEN conjunct2, THEN conjunct2, THEN conjunct1] by blast
  have f5: "findPromptFile_exact ''/p'' example_tree ''team/review'' = Some ''/p/team/review.md''"
    by (simp add: resolve_simps)
  have r5: "readPrompt_exact ''/p'' example_tree ''team/review'' = Inr ''Review the code''"
    using t3 [THEN conjunct2, THEN conjunct2, THEN conjunct2, THEN conjunct2, THEN conjunct2]
      f5 d3 by blast
  show ?thesis
    by (intro conjI) (rule r1 e1 f1 d1 f2 r2 f3 d3 r3 r4 r5)+
qed

end
